theory Spec2Isabelle
  imports Main "HOL-Library.Word"
begin

section \<open>Bytes, exceptions and the Python built-ins used by tor.py\<close>

text \<open>
  A Python \<open>bytes\<close> object is a list of 8-bit words. A Python \<open>str\<close> is represented by
  its UTF-8 encoding as a HOL \<open>string\<close>; the strings the proxy builds are only ever
  compared and passed on, never measured, so the encoding is not visible.
\<close>

type_synonym byte = "8 word"
type_synonym bytes = "byte list"

text \<open>
  The exceptions that can occur. \<open>SystemExit\<close> and \<open>KeyboardInterrupt\<close> derive from
  \<open>BaseException\<close> only; all the others derive from \<open>Exception\<close>, and
  \<open>BrokenPipeError\<close> is the one \<open>Socks5.run\<close> treats separately.
\<close>

datatype exn =
  ValueError | UnicodeDecodeError | OSError | BrokenPipeError | OtherException
  | SystemExit | KeyboardInterrupt

fun is_Exception :: "exn \<Rightarrow> bool" where
  "is_Exception SystemExit = False"
| "is_Exception KeyboardInterrupt = False"
| "is_Exception _ = True"

text \<open>
  How a piece of code ends: it falls through with a value (\<open>Next\<close>), it executes a
  \<open>return\<close> of the enclosing method (\<open>Return\<close>), it raises (\<open>Raise\<close>), or it never
  comes back because \<open>select\<close> has nothing more to report (\<open>Blocked\<close>).
\<close>

datatype 'a flow = Next 'a | Return | Raise exn | Blocked

subsection \<open>\<open>str(i)\<close>, \<open>sep.join\<close>, \<open>bytes.hex\<close>, \<open>int(s, 16)\<close>, \<open>bytes.decode\<close>\<close>

definition digit :: "nat \<Rightarrow> char" where
  "digit d = ''0123456789abcdef'' ! d"

fun str :: "nat \<Rightarrow> string" where
  "str n = (if n < 10 then [digit n] else str (n div 10) @ [digit (n mod 10)])"

declare str.simps [simp del]

fun join :: "string \<Rightarrow> string list \<Rightarrow> string" where
  "join sep [] = []"
| "join sep [x] = x"
| "join sep (x # y # ys) = x @ sep @ join sep (y # ys)"

definition hex :: "bytes \<Rightarrow> string" where
  "hex bs = concat (map (\<lambda>b. [digit (unat b div 16), digit (unat b mod 16)]) bs)"

definition hexval :: "char \<Rightarrow> nat option" where
  "hexval c =
     (let n = (of_char c :: nat) in
      if 48 \<le> n \<and> n \<le> 57 then Some (n - 48)
      else if 97 \<le> n \<and> n \<le> 102 then Some (n - 87)
      else if 65 \<le> n \<and> n \<le> 70 then Some (n - 55)
      else None)"

fun int16_from :: "nat \<Rightarrow> string \<Rightarrow> exn + nat" where
  "int16_from a [] = Inr a"
| "int16_from a (c # cs) =
     (case hexval c of None \<Rightarrow> Inl ValueError | Some d \<Rightarrow> int16_from (a * 16 + d) cs)"

text \<open>
  \<open>int(s, 16)\<close> on the strings \<open>bytes.hex\<close> produces: hexadecimal digits only. The empty
  string is not a number and raises \<open>ValueError\<close>.
\<close>

definition int16 :: "string \<Rightarrow> exn + nat" where
  "int16 s = (if s = [] then Inl ValueError else int16_from 0 s)"

definition cont :: "nat \<Rightarrow> bool" where
  "cont b = (128 \<le> b \<and> b \<le> 191)"

text \<open>Strict UTF-8, as \<open>bytes.decode()\<close> checks it: no overlong forms, no surrogates.\<close>

fun valid_utf8 :: "nat list \<Rightarrow> bool" where
  "valid_utf8 [] = True"
| "valid_utf8 (b # bs) =
     (if b < 128 then valid_utf8 bs
      else if 194 \<le> b \<and> b \<le> 223 then
        (case bs of c1 # r \<Rightarrow> cont c1 \<and> valid_utf8 r | _ \<Rightarrow> False)
      else if 224 \<le> b \<and> b \<le> 239 then
        (case bs of c1 # c2 # r \<Rightarrow>
           cont c1 \<and> cont c2 \<and> (b = 224 \<longrightarrow> 160 \<le> c1) \<and> (b = 237 \<longrightarrow> c1 \<le> 159)
           \<and> valid_utf8 r
         | _ \<Rightarrow> False)
      else if 240 \<le> b \<and> b \<le> 244 then
        (case bs of c1 # c2 # c3 # r \<Rightarrow>
           cont c1 \<and> cont c2 \<and> cont c3 \<and> (b = 240 \<longrightarrow> 144 \<le> c1) \<and> (b = 244 \<longrightarrow> c1 \<le> 143)
           \<and> valid_utf8 r
         | _ \<Rightarrow> False)
      else False)"

definition decode :: "bytes \<Rightarrow> exn + string" where
  "decode bs =
     (if valid_utf8 (map unat bs) then Inr (map (\<lambda>b. char_of (unat b)) bs)
      else Inl UnicodeDecodeError)"

text \<open>What a client does to put a string on the wire.\<close>

definition encode :: "string \<Rightarrow> bytes" where
  "encode s = map (\<lambda>c. of_nat (of_char c)) s"

definition printable :: "char \<Rightarrow> bool" where
  "printable c = (32 \<le> (of_char c :: nat) \<and> (of_char c :: nat) \<le> 126)"

text \<open>\<open>struct.pack("!H", port)\<close>: two bytes, most significant first.\<close>

definition pack_H :: "16 word \<Rightarrow> bytes" where
  "pack_H p = [ucast (drop_bit 8 p), ucast p]"

subsection \<open>Dotted-decimal notation\<close>

text \<open>
  What the specification means by the dotted-decimal rendering of an address, said
  without the functions above: the string, cut at its dots, has one field for each
  byte, and each field is the decimal numeral of its byte. A decimal numeral is a
  non-empty string of the digits 0 to 9, without a leading zero unless it is \<open>0\<close>
  itself, whose value is the number.
\<close>

definition is_digit :: "char \<Rightarrow> bool" where
  "is_digit c = (48 \<le> (of_char c :: nat) \<and> (of_char c :: nat) \<le> 57)"

definition decimal_value :: "string \<Rightarrow> nat" where
  "decimal_value s = foldl (\<lambda>v c. 10 * v + ((of_char c :: nat) - 48)) 0 s"

definition is_decimal :: "string \<Rightarrow> nat \<Rightarrow> bool" where
  "is_decimal s n =
     (s \<noteq> [] \<and> list_all is_digit s \<and> (s = ''0'' \<or> hd s \<noteq> CHR ''0'') \<and> decimal_value s = n)"

fun dot_fields :: "string \<Rightarrow> string list" where
  "dot_fields [] = [[]]"
| "dot_fields (c # cs) =
     (if c = CHR ''.'' then [] # dot_fields cs
      else (case dot_fields cs of [] \<Rightarrow> [[c]] | f # fs \<Rightarrow> (c # f) # fs))"

definition is_dotted_decimal :: "string \<Rightarrow> bytes \<Rightarrow> bool" where
  "is_dotted_decimal h bs = list_all2 is_decimal (dot_fields h) (map unat bs)"

section \<open>Sockets\<close>

text \<open>
  A socket object, seen from the proxy. \<open>inp\<close> is what the peer sends before it shuts
  its side down: reads take from the front, and at the end of the stream a read returns
  \<open>b""\<close>. \<open>send_script\<close> gives the outcome of the successive \<open>send\<close> calls, \<open>Some e\<close>
  where the call raises \<open>e\<close>; past the end of the script every send succeeds. A send
  that does not raise transmits its whole buffer, which is recorded in \<open>sent\<close>.
  \<open>sockname_port\<close> is the port that \<open>getsockname()\<close> reports. What \<open>close()\<close> does
  in the relay's cleanup is given with the relay; in \<open>Socks5.error\<close> and in the handler
  of \<open>Socks5.run\<close> it is taken to return.
\<close>

record sock =
  inp :: bytes
  send_script :: "exn option list"
  sent :: "bytes list"
  sockname_port :: "16 word"

text \<open>
  \<open>sock.recv(bufsize)\<close>, where \<open>avail\<close> bytes have arrived when the call returns (at
  least one, unless the stream is at its end).
\<close>

definition recv :: "nat \<Rightarrow> nat \<Rightarrow> sock \<Rightarrow> bytes \<times> sock" where
  "recv bufsize avail s =
     (let k = min bufsize (max 1 avail)
      in (take k (inp s), s\<lparr>inp := drop k (inp s)\<rparr>))"

text \<open>
  \<open>torpy.utils.recv_exact(sock, n)\<close> is a helper of the torpy library: it calls
  \<open>recv\<close> until \<open>n\<close> bytes have come or the stream has ended, and returns what it got.
\<close>

definition recv_exact :: "sock \<Rightarrow> nat \<Rightarrow> bytes \<times> sock" where
  "recv_exact s n = (take n (inp s), s\<lparr>inp := drop n (inp s)\<rparr>)"

definition send :: "sock \<Rightarrow> bytes \<Rightarrow> exn option \<times> sock" where
  "send s buf =
     (case send_script s of
        Some e # rest \<Rightarrow> (Some e, s\<lparr>send_script := rest\<rparr>)
      | _ \<Rightarrow> (None, s\<lparr>send_script := tl (send_script s), sent := sent s @ [buf]\<rparr>))"

definition sendall :: "sock \<Rightarrow> bytes \<Rightarrow> exn option \<times> sock" where
  "sendall s buf = send s buf"

text \<open>The first \<open>k\<close> sends on the socket do not raise.\<close>

definition no_raise :: "nat \<Rightarrow> sock \<Rightarrow> bool" where
  "no_raise k s = list_all (\<lambda>r. r = None) (take k (send_script s))"

section \<open>\<open>SocksProxy\<close>: the relay\<close>

datatype endpoint = Tunnel | Client

text \<open>
  The two fields of a \<open>SocksProxy\<close> object, and the \<open>close()\<close> calls it has made, in
  order.
\<close>

record proxy =
  server_sock :: sock
  client_sock :: sock
  close_calls :: "endpoint list"

text \<open>
  One turn of the \<open>while True\<close> loop, as the environment decides it: what \<open>select\<close>
  does (it raises, or reports whether \<open>ssock\<close> and \<open>csock\<close> are readable), and what each
  \<open>recv(4096)\<close> does if called (it raises, or that many bytes have arrived).
\<close>

datatype round = Round (sel: "exn + bool \<times> bool") (s_rx: "exn + nat") (c_rx: "exn + nat")

datatype step = Continue | Break | Throw exn

text \<open>Lines 51-54: \<open>buf = ssock.recv(4096)\<close>, \<open>break\<close> on a zero-length read, \<open>csock.send(buf)\<close>.\<close>

definition from_server :: "round \<Rightarrow> proxy \<Rightarrow> step \<times> proxy" where
  "from_server r p =
     (case s_rx r of
        Inl e \<Rightarrow> (Throw e, p)
      | Inr avail \<Rightarrow>
          (let (buf, ss) = recv 4096 avail (server_sock p);
               p1 = p\<lparr>server_sock := ss\<rparr>
           in if length buf = 0 then (Break, p1)
              else (case send (client_sock p1) buf of
                      (Some e, cs) \<Rightarrow> (Throw e, p1\<lparr>client_sock := cs\<rparr>)
                    | (None, cs) \<Rightarrow> (Continue, p1\<lparr>client_sock := cs\<rparr>))))"

text \<open>Lines 56-59: the same from \<open>csock\<close> to \<open>ssock\<close>.\<close>

definition from_client :: "round \<Rightarrow> proxy \<Rightarrow> step \<times> proxy" where
  "from_client r p =
     (case c_rx r of
        Inl e \<Rightarrow> (Throw e, p)
      | Inr avail \<Rightarrow>
          (let (buf, cs) = recv 4096 avail (client_sock p);
               p1 = p\<lparr>client_sock := cs\<rparr>
           in if length buf = 0 then (Break, p1)
              else (case send (server_sock p1) buf of
                      (Some e, ss) \<Rightarrow> (Throw e, p1\<lparr>server_sock := ss\<rparr>)
                    | (None, ss) \<Rightarrow> (Continue, p1\<lparr>server_sock := ss\<rparr>))))"

text \<open>
  Lines 48-59. When the environment has no further round, \<open>select\<close> never returns and
  the loop is \<open>Blocked\<close>. \<open>Next ()\<close> is a \<open>break\<close>.
\<close>

fun relay_loop :: "round list \<Rightarrow> proxy \<Rightarrow> unit flow \<times> proxy" where
  "relay_loop [] p = (Blocked, p)"
| "relay_loop (r # rs) p =
     (case sel r of
        Inl e \<Rightarrow> (Raise e, p)
      | Inr (sr, cr) \<Rightarrow>
          (case (if sr then from_server r p else (Continue, p)) of
             (Break, p1) \<Rightarrow> (Next (), p1)
           | (Throw e, p1) \<Rightarrow> (Raise e, p1)
           | (Continue, p1) \<Rightarrow>
               (case (if cr then from_client r p1 else (Continue, p1)) of
                  (Break, p2) \<Rightarrow> (Next (), p2)
                | (Throw e, p2) \<Rightarrow> (Raise e, p2)
                | (Continue, p2) \<Rightarrow> relay_loop rs p2)))"

text \<open>
  What the two \<open>close()\<close> calls of the \<open>finally\<close> block do, \<open>ssock.close()\<close> first:
  \<open>None\<close> where the call returns, \<open>Some e\<close> where it raises \<open>e\<close>.
\<close>

type_synonym closing = "exn option \<times> exn option"

text \<open>
  Lines 62-66, the \<open>finally\<close> block. Each \<open>close()\<close> call that is made is recorded,
  whether it returns or raises. When \<open>ssock.close()\<close> raises, \<open>csock.close()\<close> is not
  reached and the exception leaves \<open>run\<close>.
\<close>

definition cleanup :: "closing \<Rightarrow> proxy \<Rightarrow> unit flow \<times> proxy" where
  "cleanup closing p =
     (let p1 = p\<lparr>close_calls := close_calls p @ [Tunnel]\<rparr> in
      case fst closing of
        Some e \<Rightarrow> (Raise e, p1)
      | None \<Rightarrow>
          (let p2 = p1\<lparr>close_calls := close_calls p1 @ [Client]\<rparr> in
           case snd closing of
             Some e \<Rightarrow> (Raise e, p2)
           | None \<Rightarrow> (Next (), p2)))"

text \<open>
  \<open>SocksProxy.run\<close>, lines 42-66. The reply of line 46 is sent outside the \<open>try\<close>, so an
  exception there leaves the method. Inside, \<open>except BaseException\<close> swallows whatever
  the loop raises, and the \<open>finally\<close> block runs however the loop was left.
\<close>

definition SocksProxy_run :: "round list \<Rightarrow> closing \<Rightarrow> proxy \<Rightarrow> unit flow \<times> proxy" where
  "SocksProxy_run rounds closing p =
     (let port = sockname_port (client_sock p) in
      case sendall (client_sock p) ([5, 0, 0, 1, 127, 0, 0, 1] @ pack_H port) of
        (Some e, cs) \<Rightarrow> (Raise e, p\<lparr>client_sock := cs\<rparr>)
      | (None, cs) \<Rightarrow>
          (case relay_loop rounds (p\<lparr>client_sock := cs\<rparr>) of
             (Blocked, p1) \<Rightarrow> (Blocked, p1)
           | (_, p1) \<Rightarrow> cleanup closing p1))"

section \<open>\<open>Socks5\<close>: one client connection\<close>

text \<open>
  What a \<open>Socks5\<close> thread can touch. \<open>csock\<close> is the client's socket object; the field
  \<open>self.client_sock\<close> refers to the same object until it is set to \<open>None\<close>, and
  \<open>has_client_sock\<close> says whether it still does. \<open>tunnel\<close> is the endpoint a stream has
  handed out, if any. The rest is a record of what has been done: the \<open>close()\<close> calls
  in order, the destinations \<open>create_stream\<close> was called with, the streams whose
  \<open>with\<close> block has been left, and the number of times \<open>SocksProxy.run\<close> was entered.
  The \<open>print\<close> calls of \<open>L\<close> and \<open>E\<close> have no effect on any of this and are left out.
\<close>

record world =
  csock :: sock
  has_client_sock :: bool
  tunnel :: "sock option"
  close_log :: "endpoint list"
  stream_log :: "(string \<times> nat) list"
  released :: nat
  relays :: nat

text \<open>
  The circuit collaborator: \<open>create_stream\<close> raises or gives a stream, whose
  \<open>create_socket\<close> raises or gives the tunnel's endpoint.
\<close>

datatype stream = Stream (create_socket_result: "exn + sock")

type_synonym circuit = "string \<times> nat \<Rightarrow> exn + stream"

text \<open>
  The \<open>try\<close> block of \<open>Socks5.error\<close>, lines 108-110. With \<open>self.client_sock\<close> already
  \<open>None\<close> the first line raises (\<open>AttributeError\<close>, reported here as \<open>OtherException\<close>).
\<close>

definition error_try :: "bytes \<Rightarrow> world \<Rightarrow> exn option \<times> world" where
  "error_try err w =
     (if \<not> has_client_sock w then (Some OtherException, w)
      else (case send (csock w) (5 # err) of
              (Some e, cs) \<Rightarrow> (Some e, w\<lparr>csock := cs\<rparr>)
            | (None, cs) \<Rightarrow>
                (None, w\<lparr>csock := cs, close_log := close_log w @ [Client],
                         has_client_sock := False\<rparr>)))"

text \<open>\<open>Socks5.error\<close>, lines 106-112: \<open>except BaseException: pass\<close>.\<close>

definition error :: "bytes \<Rightarrow> world \<Rightarrow> unit flow \<times> world" where
  "error err w =
     (case error_try err w of
        (Some e, w1) \<Rightarrow> (Next (), w1)
      | (None, w1) \<Rightarrow> (Next (), w1))"

text \<open>\<open>return self.error(err)\<close>.\<close>

definition return_error :: "bytes \<Rightarrow> world \<Rightarrow> 'a flow \<times> world" where
  "return_error err w = (Return, snd (error err w))"

text \<open>Lines 124-129: the version byte, the method count, the methods, the reply.\<close>

definition run_greeting :: "world \<Rightarrow> unit flow \<times> world" where
  "run_greeting w =
     (let (ver, s1) = recv 1 1 (csock w) in
      if ver \<noteq> [5] then return_error [255] (w\<lparr>csock := s1\<rparr>)
      else
        (let (mb, s2) = recv 1 1 s1 in
         case mb of
           [nmeth] \<Rightarrow>
             (let (ms, s3) = recv_exact s2 (unat nmeth) in
              case send s3 [5, 0] of
                (Some e, s4) \<Rightarrow> (Raise e, w\<lparr>csock := s4\<rparr>)
              | (None, s4) \<Rightarrow> (Next (), w\<lparr>csock := s4\<rparr>))
         | _ \<Rightarrow> (Raise ValueError, w\<lparr>csock := s2\<rparr>)))"

text \<open>
  Lines 130-136: the four header bytes and the guard on version and command. Unpacking
  a header of one to three bytes raises \<open>ValueError\<close>. The result is \<open>atyp\<close>.
\<close>

definition run_request :: "world \<Rightarrow> byte flow \<times> world" where
  "run_request w =
     (let (hbuf, s) = recv_exact (csock w) 4;
          w1 = w\<lparr>csock := s\<rparr>
      in if hbuf = [] then return_error [1, 0] w1
         else (case hbuf of
                 [ver, cmd, rsv, atyp] \<Rightarrow>
                   if ver \<noteq> 5 \<and> cmd \<noteq> 1 then return_error [1, 0] w1
                   else (Next atyp, w1)
               | _ \<Rightarrow> (Raise ValueError, w1)))"

text \<open>Line 144: \<open>recv_exact(csock, 2).hex() for _ in range(8)\<close>.\<close>

fun recv_groups :: "nat \<Rightarrow> sock \<Rightarrow> string list \<times> sock" where
  "recv_groups 0 s = ([], s)"
| "recv_groups (Suc k) s =
     (let (g, s1) = recv_exact s 2;
          (gs, s2) = recv_groups k s1
      in (hex g # gs, s2))"

text \<open>Lines 138-147: the destination host, by address type.\<close>

definition run_address :: "byte \<Rightarrow> world \<Rightarrow> string flow \<times> world" where
  "run_address atyp w =
     (if atyp = 1 then
        (let (a, s) = recv_exact (csock w) 4
         in (Next (join ''.'' (map (\<lambda>i. str (unat i)) a)), w\<lparr>csock := s\<rparr>))
      else if atyp = 3 then
        (let (nb, s1) = recv 1 1 (csock w) in
         case nb of
           [n] \<Rightarrow>
             (let (d, s2) = recv_exact s1 (unat n) in
              case decode d of
                Inl e \<Rightarrow> (Raise e, w\<lparr>csock := s2\<rparr>)
              | Inr dest \<Rightarrow> (Next dest, w\<lparr>csock := s2\<rparr>))
         | _ \<Rightarrow> (Raise ValueError, w\<lparr>csock := s1\<rparr>))
      else if atyp = 4 then
        (let (gs, s) = recv_groups 8 (csock w);
             dest = join '':'' gs
         in return_error [1, 0] (w\<lparr>csock := s\<rparr>))
      else return_error [1, 0] w)"

text \<open>Line 149: \<open>port = int(recv_exact(csock, 2).hex(), 16)\<close>.\<close>

definition run_port :: "world \<Rightarrow> nat flow \<times> world" where
  "run_port w =
     (let (pb, s) = recv_exact (csock w) 2;
          w1 = w\<lparr>csock := s\<rparr>
      in case int16 (hex pb) of
           Inl e \<Rightarrow> (Raise e, w1)
         | Inr port \<Rightarrow> (Next port, w1))"

text \<open>What the relay did, written back into the world.\<close>

definition absorb :: "world \<Rightarrow> proxy \<Rightarrow> world" where
  "absorb w p =
     w\<lparr>csock := client_sock p, tunnel := Some (server_sock p),
       close_log := close_log w @ close_calls p\<rparr>"

text \<open>
  Lines 151-152 with \<open>create_socket\<close>, lines 114-119: the stream is requested, its
  endpoint is handed to a new \<open>SocksProxy\<close>, and the stream's \<open>with\<close> block is left
  whichever way the body ends.
\<close>

definition with_create_socket ::
    "circuit \<Rightarrow> round list \<Rightarrow> closing \<Rightarrow> string \<Rightarrow> nat \<Rightarrow> world
       \<Rightarrow> unit flow \<times> world" where
  "with_create_socket circ rounds closing dest port w =
     (let w0 = w\<lparr>stream_log := stream_log w @ [(dest, port)]\<rparr> in
      case circ (dest, port) of
        Inl e \<Rightarrow> (Raise e, w0)
      | Inr tor_stream \<Rightarrow>
          (case create_socket_result tor_stream of
             Inl e \<Rightarrow> (Raise e, w0\<lparr>released := released w0 + 1\<rparr>)
           | Inr ssock \<Rightarrow>
               (let w1 = w0\<lparr>relays := relays w0 + 1\<rparr> in
                case SocksProxy_run rounds closing
                       \<lparr>server_sock = ssock, client_sock = csock w1, close_calls = []\<rparr> of
                  (Blocked, p) \<Rightarrow> (Blocked, absorb w1 p)
                | (r, p) \<Rightarrow> (r, (absorb w1 p)\<lparr>released := released w1 + 1\<rparr>))))"

text \<open>Lines 150-155: \<open>except BrokenPipeError\<close> calls \<open>exit()\<close>, which raises \<open>SystemExit\<close>.\<close>

definition run_connect ::
    "circuit \<Rightarrow> round list \<Rightarrow> closing \<Rightarrow> string \<Rightarrow> nat \<Rightarrow> world
       \<Rightarrow> unit flow \<times> world" where
  "run_connect circ rounds closing dest port w =
     (case with_create_socket circ rounds closing dest port w of
        (Raise e, w1) \<Rightarrow>
          if e = BrokenPipeError then (Raise SystemExit, w1) else (Raise e, w1)
      | r \<Rightarrow> r)"

text \<open>Sequencing: the next statement runs only when the previous one fell through.\<close>

definition and_then ::
    "'a flow \<times> world \<Rightarrow> ('a \<Rightarrow> world \<Rightarrow> 'b flow \<times> world) \<Rightarrow> 'b flow \<times> world" where
  "and_then r f =
     (case r of
        (Next v, w) \<Rightarrow> f v w
      | (Return, w) \<Rightarrow> (Return, w)
      | (Raise e, w) \<Rightarrow> (Raise e, w)
      | (Blocked, w) \<Rightarrow> (Blocked, w))"

text \<open>
  Lines 124-149, the negotiation up to the destination: greeting, request header,
  address, port.
\<close>

definition handshake :: "world \<Rightarrow> (string \<times> nat) flow \<times> world" where
  "handshake w =
     and_then (run_greeting w) (\<lambda>_ w1.
     and_then (run_request w1) (\<lambda>atyp w2.
     and_then (run_address atyp w2) (\<lambda>dest w3.
     and_then (run_port w3) (\<lambda>port w4.
     (Next (dest, port), w4)))))"

text \<open>The body of the outer \<open>try\<close>, lines 124-155.\<close>

definition run_try :: "circuit \<Rightarrow> round list \<Rightarrow> closing \<Rightarrow> world \<Rightarrow> unit flow \<times> world" where
  "run_try circ rounds closing w =
     and_then (handshake w) (\<lambda>(dest, port) w4. run_connect circ rounds closing dest port w4)"

text \<open>
  \<open>Socks5.run\<close>, lines 121-159: \<open>except Exception\<close> closes \<open>csock\<close> and clears the
  field; an exception that is not an \<open>Exception\<close> leaves the method.
\<close>

definition Socks5_run :: "circuit \<Rightarrow> round list \<Rightarrow> closing \<Rightarrow> world \<Rightarrow> unit flow \<times> world" where
  "Socks5_run circ rounds closing w =
     (case run_try circ rounds closing w of
        (Raise e, w1) \<Rightarrow>
          if is_Exception e
          then (Next (), w1\<lparr>close_log := close_log w1 @ [Client], has_client_sock := False\<rparr>)
          else (Raise e, w1)
      | (Return, w1) \<Rightarrow> (Next (), w1)
      | r \<Rightarrow> r)"

text \<open>
  \<open>Socks5.__init__\<close>, lines 99-104, for a freshly accepted socket: nothing has happened
  yet.
\<close>

definition Socks5_init :: "sock \<Rightarrow> world" where
  "Socks5_init client =
     \<lparr>csock = client, has_client_sock = True, tunnel = None, close_log = [],
      stream_log = [], released = 0, relays = 0\<rparr>"

text \<open>A client that sends \<open>data\<close> and whose socket reports local port \<open>port\<close>.\<close>

definition client :: "bytes \<Rightarrow> exn option list \<Rightarrow> 16 word \<Rightarrow> sock" where
  "client data script port =
     \<lparr>inp = data, send_script = script, sent = [], sockname_port = port\<rparr>"

text \<open>A circuit whose \<open>create_stream\<close> raises \<open>e\<close> for every destination.\<close>

definition failing_circuit :: "exn \<Rightarrow> circuit" where
  "failing_circuit e dest = Inl e"

text \<open>A circuit whose streams hand out the endpoint \<open>ssock\<close>.\<close>

definition working_circuit :: "sock \<Rightarrow> circuit" where
  "working_circuit ssock dest = Inr (Stream (Inr ssock))"

section \<open>Basic facts about the operations\<close>

lemma recv_exact_append:
  "inp s = a @ b \<Longrightarrow> length a = n \<Longrightarrow> recv_exact s n = (a, s\<lparr>inp := b\<rparr>)"
  by (simp add: recv_exact_def)

lemma recv_one_Cons:
  "inp s = x # xs \<Longrightarrow> recv (Suc 0) (Suc 0) s = ([x], s\<lparr>inp := xs\<rparr>)"
  by (simp add: recv_def)

lemma send_no_raise:
  "no_raise (Suc k) s \<Longrightarrow>
     send s buf = (None, s\<lparr>send_script := tl (send_script s), sent := sent s @ [buf]\<rparr>)"
  by (cases "send_script s") (auto simp: send_def no_raise_def split: option.splits list.splits)

lemma no_raise_tl:
  "no_raise (Suc k) s \<Longrightarrow> no_raise k (s\<lparr>send_script := tl (send_script s)\<rparr>)"
  by (cases "send_script s") (auto simp: no_raise_def)

lemma less_16_cases:
  "k < 16 \<Longrightarrow> k = 0 \<or> k = 1 \<or> k = 2 \<or> k = 3 \<or> k = 4 \<or> k = 5 \<or> k = 6 \<or> k = 7 \<or> k = 8
     \<or> k = 9 \<or> k = 10 \<or> k = 11 \<or> k = 12 \<or> k = 13 \<or> k = 14 \<or> k = (15::nat)"
  by arith

lemma hexval_digit: "k < 16 \<Longrightarrow> hexval (digit k) = Some k"
  by (drule less_16_cases) (auto simp: digit_def hexval_def)

lemma unat_byte_less: "unat (b::byte) < 256"
proof -
  have "unat b < 2 ^ LENGTH(8)" by (rule unsigned_less)
  then show ?thesis by simp
qed

lemma byte_nibbles: "unat (b::byte) div 16 < 16" "unat b mod 16 < 16"
  using unat_byte_less [of b] by simp_all

lemma no_raise_inp [simp]: "no_raise k (s\<lparr>inp := x\<rparr>) = no_raise k s"
  by (simp add: no_raise_def)

lemma int16_hex_pair:
  "int16 (hex [p1, p2]) = Inr (unat p1 * 256 + unat p2)"
proof -
  have d: "unat p1 = unat p1 div 16 * 16 + unat p1 mod 16" by simp
  have "int16 (hex [p1, p2]) =
        Inr (((unat p1 div 16 * 16 + unat p1 mod 16) * 16 + unat p2 div 16) * 16 + unat p2 mod 16)"
    by (simp add: int16_def hex_def hexval_digit byte_nibbles)
  also have "\<dots> = Inr (unat p1 * 256 + unat p2)"
    by simp
  finally show ?thesis .
qed

lemma greeting_eq:
  assumes "inp (csock w) = 5 # n # ms @ rest" and "length ms = unat n"
    and "no_raise (Suc k) (csock w)"
  shows "run_greeting w =
     (Next (), w\<lparr>csock := (csock w)\<lparr>inp := rest, send_script := tl (send_script (csock w)),
                                   sent := sent (csock w) @ [[5, 0]]\<rparr>\<rparr>)"
proof -
  have "send ((csock w)\<lparr>inp := rest\<rparr>) [5, 0] =
      (None, (csock w)\<lparr>inp := rest, send_script := tl (send_script (csock w)),
                        sent := sent (csock w) @ [[5, 0]]\<rparr>)"
    using assms(3) by (simp add: send_no_raise)
  then show ?thesis
    using assms(1,2) unfolding run_greeting_def by (simp add: recv_def recv_exact_def)
qed

lemma request_eq:
  assumes "inp (csock w) = ver # cmd # rsv # atyp # rest" and "ver = 5 \<or> cmd = 1"
  shows "run_request w = (Next atyp, w\<lparr>csock := (csock w)\<lparr>inp := rest\<rparr>\<rparr>)"
proof -
  have "recv_exact (csock w) 4 = ([ver, cmd, rsv, atyp], (csock w)\<lparr>inp := rest\<rparr>)"
    by (rule recv_exact_append) (simp_all add: assms(1))
  then show ?thesis
    using assms(2) unfolding run_request_def by auto
qed

lemma port_eq:
  assumes "inp (csock w) = p1 # p2 # rest"
  shows "run_port w = (Next (unat p1 * 256 + unat p2), w\<lparr>csock := (csock w)\<lparr>inp := rest\<rparr>\<rparr>)"
proof -
  have "recv_exact (csock w) 2 = ([p1, p2], (csock w)\<lparr>inp := rest\<rparr>)"
    by (rule recv_exact_append) (simp_all add: assms)
  then show ?thesis
    unfolding run_port_def by (simp add: int16_hex_pair)
qed

lemma address_ipv4_eq:
  assumes "inp (csock w) = a # b # c # d # rest"
  shows "run_address 1 w =
     (Next (join ''.'' [str (unat a), str (unat b), str (unat c), str (unat d)]),
      w\<lparr>csock := (csock w)\<lparr>inp := rest\<rparr>\<rparr>)"
proof -
  have "recv_exact (csock w) 4 = ([a, b, c, d], (csock w)\<lparr>inp := rest\<rparr>)"
    by (rule recv_exact_append) (simp_all add: assms)
  then show ?thesis
    unfolding run_address_def by simp
qed

lemma run_greeting_Next:
  "run_greeting w = (Next v, w') \<Longrightarrow>
   \<exists>i. w' = w\<lparr>csock := (csock w)\<lparr>inp := i, send_script := tl (send_script (csock w)),
                                 sent := sent (csock w) @ [[5, 0]]\<rparr>\<rparr>"
  unfolding run_greeting_def return_error_def
  by (auto simp: recv_def recv_exact_def send_def Let_def
           split: if_splits prod.splits list.splits option.splits)

lemma run_request_Next:
  "run_request w = (Next v, w') \<Longrightarrow> \<exists>i. w' = w\<lparr>csock := (csock w)\<lparr>inp := i\<rparr>\<rparr>"
  unfolding run_request_def return_error_def
  by (auto simp: recv_exact_def Let_def split: if_splits list.splits)

lemma recv_groups_inp:
  "snd (recv_groups k s) = s\<lparr>inp := drop (2 * k) (inp s)\<rparr>"
proof (induction k arbitrary: s)
  case 0
  show ?case by simp
next
  case (Suc k)
  let ?s1 = "s\<lparr>inp := drop 2 (inp s)\<rparr>"
  have "snd (recv_groups (Suc k) s) = snd (recv_groups k ?s1)"
    by (simp add: recv_exact_def split: prod.splits)
  also have "\<dots> = ?s1\<lparr>inp := drop (2 * k) (inp ?s1)\<rparr>"
    by (rule Suc.IH)
  also have "\<dots> = s\<lparr>inp := drop (2 * Suc k) (inp s)\<rparr>"
    by (simp add: add.commute)
  finally show ?case .
qed

lemma run_address_Next:
  "run_address a w = (Next v, w') \<Longrightarrow> \<exists>i. w' = w\<lparr>csock := (csock w)\<lparr>inp := i\<rparr>\<rparr>"
  unfolding run_address_def return_error_def
  by (auto simp: recv_def recv_exact_def Let_def
           split: if_splits prod.splits list.splits sum.splits)

lemma run_port_Next:
  "run_port w = (Next v, w') \<Longrightarrow> \<exists>i. w' = w\<lparr>csock := (csock w)\<lparr>inp := i\<rparr>\<rparr>"
  unfolding run_port_def
  by (auto simp: recv_exact_def Let_def split: sum.splits)

lemma and_then_Next:
  "and_then r f = (Next v, w') \<Longrightarrow> \<exists>u w1. r = (Next u, w1) \<and> f u w1 = (Next v, w')"
  unfolding and_then_def by (auto split: prod.splits flow.splits)

lemma handshake_Next:
  assumes "handshake w = (Next dp, w')"
  shows "\<exists>i. w' = w\<lparr>csock := (csock w)\<lparr>inp := i, send_script := tl (send_script (csock w)),
                                 sent := sent (csock w) @ [[5, 0]]\<rparr>\<rparr>"
proof -
  from assms obtain u1 w1 where g: "run_greeting w = (Next u1, w1)"
    and r1: "and_then (run_request w1) (\<lambda>atyp w2.
               and_then (run_address atyp w2) (\<lambda>dest w3.
               and_then (run_port w3) (\<lambda>port w4. (Next (dest, port), w4)))) = (Next dp, w')"
    unfolding handshake_def by (blast dest: and_then_Next)
  from r1 obtain atyp w2 where q: "run_request w1 = (Next atyp, w2)"
    and r2: "and_then (run_address atyp w2) (\<lambda>dest w3.
               and_then (run_port w3) (\<lambda>port w4. (Next (dest, port), w4))) = (Next dp, w')"
    by (blast dest: and_then_Next)
  from r2 obtain dest w3 where a: "run_address atyp w2 = (Next dest, w3)"
    and r3: "and_then (run_port w3) (\<lambda>port w4. (Next (dest, port), w4)) = (Next dp, w')"
    by (blast dest: and_then_Next)
  from r3 obtain port w4 where p: "run_port w3 = (Next port, w4)" and e: "w4 = w'"
    by (auto dest!: and_then_Next)
  from run_greeting_Next [OF g] obtain i1 where
    w1: "w1 = w\<lparr>csock := (csock w)\<lparr>inp := i1, send_script := tl (send_script (csock w)),
                                 sent := sent (csock w) @ [[5, 0]]\<rparr>\<rparr>" by blast
  from run_request_Next [OF q] obtain i2 where w2: "w2 = w1\<lparr>csock := (csock w1)\<lparr>inp := i2\<rparr>\<rparr>"
    by blast
  from run_address_Next [OF a] obtain i3 where w3: "w3 = w2\<lparr>csock := (csock w2)\<lparr>inp := i3\<rparr>\<rparr>"
    by blast
  from run_port_Next [OF p] obtain i4 where w4: "w4 = w3\<lparr>csock := (csock w3)\<lparr>inp := i4\<rparr>\<rparr>"
    by blast
  show ?thesis
    by (rule exI [of _ i4]) (simp add: e [symmetric] w4 w3 w2 w1)
qed

lemma with_create_socket_raises:
  "circ (dest, port) = Inl e \<Longrightarrow>
   with_create_socket circ rounds closing dest port w =
     (Raise e, w\<lparr>stream_log := stream_log w @ [(dest, port)]\<rparr>)"
  by (simp add: with_create_socket_def)

lemma from_server_facts:
  "close_calls (snd (from_server r p)) = close_calls p"
  "\<exists>more. sent (client_sock (snd (from_server r p))) = sent (client_sock p) @ more"
  unfolding from_server_def
  by (auto simp: recv_def send_def Let_def split: sum.splits prod.splits list.splits option.splits)

lemma from_client_facts:
  "close_calls (snd (from_client r p)) = close_calls p"
  "sent (client_sock (snd (from_client r p))) = sent (client_sock p)"
  unfolding from_client_def
  by (auto simp: recv_def send_def Let_def split: sum.splits prod.splits list.splits option.splits)

lemma relay_loop_close_calls:
  "close_calls (snd (relay_loop rs p)) = close_calls p"
proof (induction rs arbitrary: p)
  case Nil
  then show ?case by simp
next
  case (Cons r rs)
  show ?case
    using Cons.IH from_server_facts(1) [of r p] from_client_facts(1) [of r]
    by (auto split: sum.splits prod.splits step.splits) (metis snd_conv)+
qed

lemma relay_loop_preserves:
  assumes "\<And>r p. P p \<Longrightarrow> P (snd (from_server r p))"
    and "\<And>r p. P p \<Longrightarrow> P (snd (from_client r p))"
    and "P p"
  shows "P (snd (relay_loop rs p))"
  using assms(3)
proof (induction rs arbitrary: p)
  case Nil
  then show ?case by simp
next
  case (Cons r rs)
  show ?case
  proof (cases "sel r")
    case (Inl e)
    then show ?thesis using Cons.prems by simp
  next
    case (Inr rd)
    obtain sr cr where rd: "rd = (sr, cr)" by (cases rd)
    define a where "a = (if sr then from_server r p else (Continue, p))"
    define b where "b = (if cr then from_client r (snd a) else (Continue, snd a))"
    have Pa: "P (snd a)"
      using Cons.prems assms(1) by (simp add: a_def)
    have Pb: "P (snd b)"
      using Pa assms(2) by (simp add: b_def)
    have eq: "snd (relay_loop (r # rs) p) =
        (case fst a of Break \<Rightarrow> snd a | Throw e \<Rightarrow> snd a
         | Continue \<Rightarrow> (case fst b of Break \<Rightarrow> snd b | Throw e \<Rightarrow> snd b
                        | Continue \<Rightarrow> snd (relay_loop rs (snd b))))"
      by (simp add: Inr rd a_def b_def split: prod.splits step.splits)
    show ?thesis
      unfolding eq using Pa Pb Cons.IH [OF Pb] by (simp split: step.splits)
  qed
qed

lemma relay_loop_sent:
  "\<exists>more. sent (client_sock (snd (relay_loop rs p))) = sent (client_sock p) @ more"
proof (rule relay_loop_preserves
    [where P = "\<lambda>q::proxy. \<exists>more. sent (client_sock q) = sent (client_sock p) @ more"])
  fix r and q :: proxy
  assume "\<exists>more. sent (client_sock q) = sent (client_sock p) @ more"
  then show "\<exists>more. sent (client_sock (snd (from_server r q))) = sent (client_sock p) @ more"
    using from_server_facts(2) [of r q] by auto
next
  fix r and q :: proxy
  assume "\<exists>more. sent (client_sock q) = sent (client_sock p) @ more"
  then show "\<exists>more. sent (client_sock (snd (from_client r q))) = sent (client_sock p) @ more"
    by (simp add: from_client_facts(2))
next
  show "\<exists>more. sent (client_sock p) = sent (client_sock p) @ more" by simp
qed

lemma relay_loop_sockname:
  "sockname_port (client_sock (snd (relay_loop rs p))) = sockname_port (client_sock p)"
proof (rule relay_loop_preserves
    [where P = "\<lambda>q::proxy. sockname_port (client_sock q) = sockname_port (client_sock p)"])
  fix r and q :: proxy
  assume "sockname_port (client_sock q) = sockname_port (client_sock p)"
  then show "sockname_port (client_sock (snd (from_server r q))) = sockname_port (client_sock p)"
    unfolding from_server_def
    by (auto simp: recv_def send_def Let_def
             split: sum.splits prod.splits list.splits option.splits)
next
  fix r and q :: proxy
  assume "sockname_port (client_sock q) = sockname_port (client_sock p)"
  then show "sockname_port (client_sock (snd (from_client r q))) = sockname_port (client_sock p)"
    unfolding from_client_def
    by (auto simp: recv_def send_def Let_def
             split: sum.splits prod.splits list.splits option.splits)
qed simp

lemma handshake_compose:
  assumes "run_greeting w = (Next u, w1)" and "run_request w1 = (Next atyp, w2)"
    and "run_address atyp w2 = (Next dest, w3)" and "run_port w3 = (Next port, w4)"
  shows "handshake w = (Next (dest, port), w4)"
  by (simp add: handshake_def and_then_def assms)

lemma with_create_socket_stream_log:
  "stream_log (snd (with_create_socket circ rounds closing dest port w)) = stream_log w @ [(dest, port)]"
  unfolding with_create_socket_def absorb_def
  by (simp add: Let_def split: sum.splits prod.splits flow.splits)

lemma run_connect_stream_log:
  "stream_log (snd (run_connect circ rounds closing dest port w)) = stream_log w @ [(dest, port)]"
  using with_create_socket_stream_log [of circ rounds closing dest port w]
  unfolding run_connect_def by (auto split: prod.splits flow.splits)

lemma Socks5_run_stream_log:
  "stream_log (snd (Socks5_run circ rounds closing w)) = stream_log (snd (run_try circ rounds closing w))"
  unfolding Socks5_run_def by (auto split: prod.splits flow.splits)

lemma handshake_fst_Next:
  "fst (handshake w) = Next dp \<Longrightarrow> handshake w = (Next dp, snd (handshake w))"
  by (cases "handshake w") simp

lemma Socks5_run_requests_stream:
  assumes "fst (handshake w) = Next (dest, port)"
  shows "stream_log (snd (Socks5_run circ rounds closing w)) = stream_log w @ [(dest, port)]"
proof -
  note h = handshake_fst_Next [OF assms]
  from handshake_Next [OF h] have "stream_log (snd (handshake w)) = stream_log w"
    by (elim exE) (erule ssubst, simp)
  moreover have "run_try circ rounds closing w = run_connect circ rounds closing dest port (snd (handshake w))"
    unfolding run_try_def by (subst h) (simp add: and_then_def)
  ultimately show ?thesis
    by (simp add: Socks5_run_stream_log run_connect_stream_log)
qed

lemma unat_encode_char: "unat (of_nat (of_char c) :: byte) = of_char c"
  by (simp add: unat_of_nat)

lemma decode_encode:
  assumes "list_all printable s"
  shows "decode (encode s) = Inr s"
proof -
  have v: "valid_utf8 (map unat (encode s))"
    using assms by (induction s) (simp_all add: encode_def unat_encode_char printable_def)
  have "map (\<lambda>b. char_of (unat b)) (encode s) = s"
    by (induction s) (simp_all add: encode_def unat_encode_char)
  with v show ?thesis by (simp add: decode_def)
qed

lemma unat_pack_H: "map unat (pack_H p) = [unat p div 256, unat p mod 256]"
proof -
  have "unat p < 2 ^ LENGTH(16)" by (rule unsigned_less)
  then have b: "unat p div 256 < 256" by simp
  have hi: "unat (drop_bit 8 p) = unat p div 256"
    by (simp only: unat_drop_bit_eq) (simp add: drop_bit_eq_div)
  have "unat (ucast (drop_bit 8 p) :: byte) = unat (drop_bit 8 p) mod 256"
    by (simp only: unsigned_ucast_eq take_bit_eq_mod) simp
  with hi b have 1: "unat (ucast (drop_bit 8 p) :: byte) = unat p div 256" by simp
  have 2: "unat (ucast p :: byte) = unat p mod 256"
    by (simp only: unsigned_ucast_eq take_bit_eq_mod) simp
  show ?thesis
    unfolding pack_H_def using 1 2 by (simp del: drop_bit_eq_div)
qed

lemma error_sends_and_closes:
  assumes "has_client_sock w" and "no_raise (Suc k) (csock w)"
  shows "error err w =
     (Next (), w\<lparr>csock := (csock w)\<lparr>send_script := tl (send_script (csock w)),
                                  sent := sent (csock w) @ [5 # err]\<rparr>,
                close_log := close_log w @ [Client], has_client_sock := False\<rparr>)"
  using assms by (simp add: error_def error_try_def send_no_raise)

lemma Socks5_run_Return:
  "run_try circ rounds closing w = (Return, w1) \<Longrightarrow> Socks5_run circ rounds closing w = (Next (), w1)"
  by (simp add: Socks5_run_def)

lemma run_try_greeting_Return:
  "run_greeting w = (Return, w1) \<Longrightarrow> run_try circ rounds closing w = (Return, w1)"
  by (simp add: run_try_def handshake_def and_then_def)

lemma SocksProxy_run_cases:
  assumes "no_raise (Suc k) (client_sock p)"
  obtains f p2 where
    "relay_loop rounds (p\<lparr>client_sock := (client_sock p)\<lparr>
        send_script := tl (send_script (client_sock p)),
        sent := sent (client_sock p)
                @ [[5, 0, 0, 1, 127, 0, 0, 1] @ pack_H (sockname_port (client_sock p))]\<rparr>\<rparr>)
       = (f, p2)"
    and "SocksProxy_run rounds closing p =
       (if f = Blocked then (Blocked, p2) else cleanup closing p2)"
proof -
  define reply where "reply = [5, 0, 0, 1, 127, 0, 0, 1] @ pack_H (sockname_port (client_sock p))"
  define p1 where "p1 = p\<lparr>client_sock := (client_sock p)\<lparr>
      send_script := tl (send_script (client_sock p)), sent := sent (client_sock p) @ [reply]\<rparr>\<rparr>"
  have s: "sendall (client_sock p) reply = (None, client_sock p1)"
    using assms by (simp add: sendall_def send_no_raise p1_def)
  obtain f p2 where l: "relay_loop rounds p1 = (f, p2)" by fastforce
  have r: "SocksProxy_run rounds closing p =
      (if f = Blocked then (Blocked, p2) else cleanup closing p2)"
    unfolding SocksProxy_run_def reply_def [symmetric] Let_def s
    using l by (cases f) (simp_all add: p1_def)
  from l r show ?thesis
    unfolding p1_def reply_def by (rule that)
qed

lemma cleanup_client_sock: "client_sock (snd (cleanup closing p)) = client_sock p"
  by (simp add: cleanup_def Let_def split: option.splits)

lemma SocksProxy_run_shape:
  assumes "no_raise (Suc k) (client_sock p)"
  shows "\<exists>more. sent (client_sock (snd (SocksProxy_run rounds closing p))) =
           sent (client_sock p)
           @ [[5, 0, 0, 1, 127, 0, 0, 1] @ pack_H (sockname_port (client_sock p))] @ more"
    and "fst (SocksProxy_run rounds closing p) \<noteq> Blocked \<Longrightarrow>
         SocksProxy_run rounds closing p =
           cleanup closing ((snd (SocksProxy_run rounds closing p))\<lparr>close_calls := close_calls p\<rparr>)"
    and "fst (SocksProxy_run rounds closing p) = Blocked \<Longrightarrow>
         close_calls (snd (SocksProxy_run rounds closing p)) = close_calls p"
proof -
  let ?p1 = "p\<lparr>client_sock := (client_sock p)\<lparr>
        send_script := tl (send_script (client_sock p)),
        sent := sent (client_sock p)
                @ [[5, 0, 0, 1, 127, 0, 0, 1] @ pack_H (sockname_port (client_sock p))]\<rparr>\<rparr>"
  from SocksProxy_run_cases [OF assms, of rounds closing] obtain f p2 where
    l: "relay_loop rounds ?p1 = (f, p2)" and
    r: "SocksProxy_run rounds closing p =
          (if f = Blocked then (Blocked, p2) else cleanup closing p2)"
    by blast
  have c: "close_calls p2 = close_calls p"
    using relay_loop_close_calls [of rounds ?p1] l by simp
  obtain more where m: "sent (client_sock p2) = sent (client_sock ?p1) @ more"
    using relay_loop_sent [of rounds ?p1] l by auto
  have "sent (client_sock (snd (SocksProxy_run rounds closing p))) =
      sent (client_sock p)
      @ [[5, 0, 0, 1, 127, 0, 0, 1] @ pack_H (sockname_port (client_sock p))] @ more"
    using m by (simp add: r cleanup_client_sock)
  then show "\<exists>more. sent (client_sock (snd (SocksProxy_run rounds closing p))) =
           sent (client_sock p)
           @ [[5, 0, 0, 1, 127, 0, 0, 1] @ pack_H (sockname_port (client_sock p))] @ more"
    by blast
  show "close_calls (snd (SocksProxy_run rounds closing p)) = close_calls p"
    if "fst (SocksProxy_run rounds closing p) = Blocked"
  proof (cases "f = Blocked")
    case True
    then show ?thesis by (simp add: r c)
  next
    case False
    with that r have "fst (cleanup closing p2) = Blocked" by simp
    then show ?thesis
      by (simp add: cleanup_def Let_def split: option.splits)
  qed
  show "SocksProxy_run rounds closing p =
           cleanup closing ((snd (SocksProxy_run rounds closing p))\<lparr>close_calls := close_calls p\<rparr>)"
    if "fst (SocksProxy_run rounds closing p) \<noteq> Blocked"
  proof -
    from that r have nb: "f \<noteq> Blocked" by (auto split: if_splits)
    then have "SocksProxy_run rounds closing p = cleanup closing p2" by (simp add: r)
    moreover have "cleanup closing ((snd (cleanup closing p2))\<lparr>close_calls := close_calls p\<rparr>)
        = cleanup closing p2"
      using c by (simp add: cleanup_def Let_def split: option.splits)
    ultimately show ?thesis by simp
  qed
qed

lemma with_create_socket_relay:
  assumes "circ (dest, port) = Inr st" and "create_socket_result st = Inr ss"
  shows "with_create_socket circ rounds closing dest port w =
     (if fst (SocksProxy_run rounds closing \<lparr>server_sock = ss, client_sock = csock w, close_calls = []\<rparr>)
           = Blocked
      then (Blocked,
            absorb (w\<lparr>stream_log := stream_log w @ [(dest, port)], relays := relays w + 1\<rparr>)
              (snd (SocksProxy_run rounds closing
                      \<lparr>server_sock = ss, client_sock = csock w, close_calls = []\<rparr>)))
      else (fst (SocksProxy_run rounds closing
                   \<lparr>server_sock = ss, client_sock = csock w, close_calls = []\<rparr>),
            (absorb (w\<lparr>stream_log := stream_log w @ [(dest, port)], relays := relays w + 1\<rparr>)
              (snd (SocksProxy_run rounds closing
                      \<lparr>server_sock = ss, client_sock = csock w, close_calls = []\<rparr>)))
            \<lparr>released := released w + 1\<rparr>))"
  using assms
  by (simp add: with_create_socket_def Let_def split: prod.splits flow.splits)

lemma run_try_after_handshake:
  "fst (handshake w) = Next (dest, port) \<Longrightarrow>
   run_try circ rounds closing w = run_connect circ rounds closing dest port (snd (handshake w))"
  unfolding run_try_def by (subst handshake_fst_Next, assumption) (simp add: and_then_def)

lemma handshake_Next_facts:
  assumes "fst (handshake w) = Next dp"
  shows "sent (csock (snd (handshake w))) = sent (csock w) @ [[5, 0]]"
    and "send_script (csock (snd (handshake w))) = tl (send_script (csock w))"
    and "sockname_port (csock (snd (handshake w))) = sockname_port (csock w)"
    and "close_log (snd (handshake w)) = close_log w"
    and "has_client_sock (snd (handshake w)) = has_client_sock w"
    and "relays (snd (handshake w)) = relays w"
    and "stream_log (snd (handshake w)) = stream_log w"
proof -
  from handshake_Next [OF handshake_fst_Next [OF assms]] obtain i where
    "snd (handshake w) = w\<lparr>csock := (csock w)\<lparr>inp := i,
        send_script := tl (send_script (csock w)), sent := sent (csock w) @ [[5, 0]]\<rparr>\<rparr>"
    by blast
  then show "sent (csock (snd (handshake w))) = sent (csock w) @ [[5, 0]]"
    and "send_script (csock (snd (handshake w))) = tl (send_script (csock w))"
    and "sockname_port (csock (snd (handshake w))) = sockname_port (csock w)"
    and "close_log (snd (handshake w)) = close_log w"
    and "has_client_sock (snd (handshake w)) = has_client_sock w"
    and "relays (snd (handshake w)) = relays w"
    and "stream_log (snd (handshake w)) = stream_log w"
    by simp_all
qed

lemma handshake_no_raise:
  assumes "fst (handshake w) = Next dp" and "no_raise 2 (csock w)"
  shows "no_raise (Suc 0) (csock (snd (handshake w)))"
proof -
  have "no_raise (Suc (Suc 0)) (csock w)"
    using assms(2) by (simp add: numeral_2_eq_2)
  then have "no_raise (Suc 0) ((csock w)\<lparr>send_script := tl (send_script (csock w))\<rparr>)"
    by (rule no_raise_tl)
  then show ?thesis
    by (simp add: no_raise_def handshake_Next_facts(2) [OF assms(1)])
qed

lemma Socks5_run_csock:
  "csock (snd (Socks5_run circ rounds closing w)) = csock (snd (run_try circ rounds closing w))"
  unfolding Socks5_run_def by (auto split: prod.splits flow.splits)

lemma run_connect_csock:
  "csock (snd (run_connect circ rounds closing dest port w)) =
   csock (snd (with_create_socket circ rounds closing dest port w))"
  unfolding run_connect_def by (auto split: prod.splits flow.splits)

lemma address_ipv6_eq:
  assumes "inp (csock w) = addr @ rest" and "length addr = 16"
  shows "run_address 4 w = (Return, snd (error [1, 0] (w\<lparr>csock := (csock w)\<lparr>inp := rest\<rparr>\<rparr>)))"
proof -
  obtain gs s where r: "recv_groups 8 (csock w) = (gs, s)" by fastforce
  have "s = (csock w)\<lparr>inp := drop (2 * 8) (inp (csock w))\<rparr>"
    using recv_groups_inp [of 8 "csock w"] r by simp
  then have "s = (csock w)\<lparr>inp := rest\<rparr>"
    using assms by simp
  then show ?thesis
    unfolding run_address_def by (simp add: r return_error_def)
qed

lemma address_domain_eq:
  assumes "inp (csock w) = l # host @ rest" and "length host = unat l"
  shows "run_address 3 w =
     ((case decode host of Inl e \<Rightarrow> Raise e | Inr dest \<Rightarrow> Next dest),
      w\<lparr>csock := (csock w)\<lparr>inp := rest\<rparr>\<rparr>)"
  using assms unfolding run_address_def
  by (simp add: recv_def recv_exact_def split: sum.splits)

lemma handshake_address_Return:
  assumes "run_greeting w = (Next u, w1)" and "run_request w1 = (Next atyp, w2)"
    and "run_address atyp w2 = (Return, w3)"
  shows "handshake w = (Return, w3)"
  by (simp add: handshake_def and_then_def assms)

lemma run_try_handshake_Return:
  "handshake w = (Return, w3) \<Longrightarrow> run_try circ rounds closing w = (Return, w3)"
  by (simp add: run_try_def and_then_def)

lemma unat_length_byte: "n \<le> 255 \<Longrightarrow> unat (of_nat n :: byte) = n"
  by (simp add: unat_of_nat)

lemma length_encode [simp]: "length (encode s) = length s"
  by (simp add: encode_def)

lemma less_10_cases:
  "k < 10 \<Longrightarrow> k = 0 \<or> k = 1 \<or> k = 2 \<or> k = 3 \<or> k = 4 \<or> k = 5 \<or> k = 6 \<or> k = 7 \<or> k = 8
     \<or> k = (9::nat)"
  by arith

lemma digit_decimal:
  assumes "k < 10"
  shows "is_digit (digit k)" and "(of_char (digit k) :: nat) - 48 = k"
    and "(digit k = CHR ''0'') = (k = 0)"
  using less_10_cases [OF assms] by (auto simp: digit_def is_digit_def)

lemma str_nonempty: "str n \<noteq> []"
  by (subst str.simps) simp

lemma str_digits: "list_all is_digit (str n)"
proof (induction n rule: str.induct)
  case (1 n)
  show ?case
  proof (cases "n < 10")
    case True
    then show ?thesis by (subst str.simps) (simp add: digit_decimal(1))
  next
    case False
    with "1" show ?thesis by (subst str.simps) (simp add: digit_decimal(1))
  qed
qed

lemma decimal_value_snoc:
  "decimal_value (s @ [c]) = 10 * decimal_value s + ((of_char c :: nat) - 48)"
  by (simp add: decimal_value_def)

lemma str_value: "decimal_value (str n) = n"
proof (induction n rule: str.induct)
  case (1 n)
  show ?case
  proof (cases "n < 10")
    case True
    then show ?thesis
      by (subst str.simps) (simp add: decimal_value_def digit_decimal(2))
  next
    case False
    with "1" show ?thesis
      by (subst str.simps) (simp add: decimal_value_snoc digit_decimal(2))
  qed
qed

lemma str_leading: "0 < n \<Longrightarrow> hd (str n) \<noteq> CHR ''0''"
proof (induction n rule: str.induct)
  case (1 n)
  show ?case
  proof (cases "n < 10")
    case True
    with "1.prems" show ?thesis
      by (subst str.simps) (simp add: digit_decimal(3))
  next
    case False
    then have "0 < n div 10" by simp
    with "1.IH" False have "hd (str (n div 10)) \<noteq> CHR ''0''" by simp
    with False show ?thesis
      by (subst str.simps) (simp add: str_nonempty)
  qed
qed

lemma is_decimal_str: "is_decimal (str n) n"
proof (cases "n = 0")
  case True
  then show ?thesis
    by (simp add: is_decimal_def str.simps digit_def is_digit_def decimal_value_def)
next
  case False
  then show ?thesis
    by (simp add: is_decimal_def str_nonempty str_digits str_value str_leading)
qed

lemma digit_not_dot: "is_digit c \<Longrightarrow> c \<noteq> CHR ''.''"
  by (auto simp: is_digit_def)

lemma str_no_dot: "CHR ''.'' \<notin> set (str n)"
  using str_digits [of n] by (auto simp: list_all_iff dest: digit_not_dot)

lemma fields_no_dot: "CHR ''.'' \<notin> set s \<Longrightarrow> dot_fields s = [s]"
  by (induction s) auto

lemma fields_append_dot:
  "CHR ''.'' \<notin> set s \<Longrightarrow> dot_fields (s @ CHR ''.'' # r) = s # dot_fields r"
  by (induction s) auto

lemma dotted_decimal_join_str:
  "is_dotted_decimal (join ''.'' [str (unat a), str (unat b), str (unat c), str (unat d)])
     [a, b, c, d]"
  by (simp add: is_dotted_decimal_def fields_append_dot fields_no_dot str_no_dot is_decimal_str)

section \<open>The claims\<close>

text \<open>
  Claim C8. For a greeting with version byte 5 whose second byte declares \<open>n\<close> methods,
  followed by \<open>n\<close> method bytes of any content, the greeting step reads exactly those
  \<open>n\<close> bytes (what follows them is left in the stream) and sends exactly the two bytes
  05 00, whatever the methods were. The reply is a \<open>send\<close> on the client socket, so
  the statement is for a socket whose first send does not raise.
\<close>

theorem greeting_reads_methods_and_replies:
  assumes "inp (csock w) = 5 # n # ms @ rest" and "length ms = unat n"
    and "no_raise 1 (csock w)"
  shows "fst (run_greeting w) = Next ()
       \<and> inp (csock (snd (run_greeting w))) = rest
       \<and> sent (csock (snd (run_greeting w))) = sent (csock w) @ [[5, 0]]"
proof -
  from assms(3) have "no_raise (Suc 0) (csock w)" by simp
  from greeting_eq [OF assms(1,2) this] show ?thesis by simp
qed

theorem greeting_reads_methods_and_replies_witness:
  "inp (csock (Socks5_init (client [5, 2, 0, 1, 9] [] 1050))) = 5 # 2 # [0, 1] @ [9]
   \<and> length [0, 1 :: byte] = unat (2 :: byte)
   \<and> no_raise 1 (csock (Socks5_init (client [5, 2, 0, 1, 9] [] 1050)))
   \<and> fst (run_greeting (Socks5_init (client [5, 2, 0, 1, 9] [] 1050))) = Next ()
   \<and> inp (csock (snd (run_greeting (Socks5_init (client [5, 2, 0, 1, 9] [] 1050))))) = [9]
   \<and> sent (csock (snd (run_greeting (Socks5_init (client [5, 2, 0, 1, 9] [] 1050))))) = [[5, 0]]"
  using greeting_reads_methods_and_replies
    [of "Socks5_init (client [5, 2, 0, 1, 9] [] 1050)" 2 "[0, 1]" "[9]"]
  by (simp add: Socks5_init_def client_def no_raise_def)

text \<open>
  Claim C9. For a request with address type 1, whatever the four address bytes are, the
  destination host is their dotted-decimal rendering: cut at its dots it has four
  fields, and each is the decimal numeral of its byte. The two bytes after the address
  give the port, most significant byte first. This destination is what the handshake
  yields and what \<open>create_stream\<close> is called with.
\<close>

theorem ipv4_destination_and_port:
  assumes "inp (csock w) = 5 # n # ms @ ver # cmd # rsv # 1 # a # b # c # d # p1 # p2 # rest"
    and "length ms = unat n" and "ver = 5 \<or> cmd = 1" and "no_raise 1 (csock w)"
  shows "fst (handshake w) =
           Next (join ''.'' [str (unat a), str (unat b), str (unat c), str (unat d)],
                 unat p1 * 256 + unat p2)
       \<and> is_dotted_decimal
            (join ''.'' [str (unat a), str (unat b), str (unat c), str (unat d)]) [a, b, c, d]
       \<and> stream_log (snd (Socks5_run circ rounds closing w)) =
           stream_log w @ [(join ''.'' [str (unat a), str (unat b), str (unat c), str (unat d)],
                            unat p1 * 256 + unat p2)]"
proof -
  from assms(4) have nr: "no_raise (Suc 0) (csock w)" by simp
  define w1 where "w1 = w\<lparr>csock := (csock w)\<lparr>inp := ver # cmd # rsv # 1 # a # b # c # d # p1 # p2 # rest,
      send_script := tl (send_script (csock w)), sent := sent (csock w) @ [[5, 0]]\<rparr>\<rparr>"
  define w2 where "w2 = w1\<lparr>csock := (csock w1)\<lparr>inp := a # b # c # d # p1 # p2 # rest\<rparr>\<rparr>"
  define w3 where "w3 = w2\<lparr>csock := (csock w2)\<lparr>inp := p1 # p2 # rest\<rparr>\<rparr>"
  define w4 where "w4 = w3\<lparr>csock := (csock w3)\<lparr>inp := rest\<rparr>\<rparr>"
  have g: "run_greeting w = (Next (), w1)"
    unfolding w1_def using assms(1,2) nr by (rule greeting_eq)
  have q: "run_request w1 = (Next 1, w2)"
    unfolding w2_def by (rule request_eq) (simp add: w1_def, rule assms(3))
  have ad: "run_address 1 w2 =
      (Next (join ''.'' [str (unat a), str (unat b), str (unat c), str (unat d)]), w3)"
    unfolding w3_def by (rule address_ipv4_eq) (simp add: w2_def)
  have p: "run_port w3 = (Next (unat p1 * 256 + unat p2), w4)"
    unfolding w4_def by (rule port_eq) (simp add: w3_def)
  have h: "fst (handshake w) =
      Next (join ''.'' [str (unat a), str (unat b), str (unat c), str (unat d)],
            unat p1 * 256 + unat p2)"
    by (simp add: handshake_compose [OF g q ad p])
  from h Socks5_run_requests_stream [OF h] dotted_decimal_join_str [of a b c d]
  show ?thesis by simp
qed

theorem ipv4_destination_and_port_witness:
  "inp (csock (Socks5_init (client [5, 1, 0, 5, 1, 0, 1, 255, 255, 255, 255, 1, 187] [] 1050)))
     = 5 # 1 # [0] @ 5 # 1 # 0 # 1 # 255 # 255 # 255 # 255 # 1 # 187 # []
   \<and> length [0 :: byte] = unat (1 :: byte) \<and> ((5 :: byte) = 5 \<or> (1 :: byte) = 1)
   \<and> no_raise 1 (csock (Socks5_init
        (client [5, 1, 0, 5, 1, 0, 1, 255, 255, 255, 255, 1, 187] [] 1050)))
   \<and> fst (handshake (Socks5_init
        (client [5, 1, 0, 5, 1, 0, 1, 255, 255, 255, 255, 1, 187] [] 1050)))
       = Next (''255.255.255.255'', 443)
   \<and> is_dotted_decimal ''255.255.255.255'' [255, 255, 255, 255]
   \<and> stream_log (snd (Socks5_run (failing_circuit OSError) [] (None, None) (Socks5_init
        (client [5, 1, 0, 5, 1, 0, 1, 255, 255, 255, 255, 1, 187] [] 1050))))
       = [(''255.255.255.255'', 443)]
   \<and> inp (csock (Socks5_init (client [5, 1, 0, 5, 1, 0, 1, 0, 0, 0, 0, 0, 80] [] 1050)))
     = 5 # 1 # [0] @ 5 # 1 # 0 # 1 # 0 # 0 # 0 # 0 # 0 # 80 # []
   \<and> no_raise 1 (csock (Socks5_init
        (client [5, 1, 0, 5, 1, 0, 1, 0, 0, 0, 0, 0, 80] [] 1050)))
   \<and> fst (handshake (Socks5_init (client [5, 1, 0, 5, 1, 0, 1, 0, 0, 0, 0, 0, 80] [] 1050)))
       = Next (''0.0.0.0'', 80)
   \<and> is_dotted_decimal ''0.0.0.0'' [0, 0, 0, 0]
   \<and> stream_log (snd (Socks5_run (failing_circuit OSError) [] (None, None) (Socks5_init
        (client [5, 1, 0, 5, 1, 0, 1, 0, 0, 0, 0, 0, 80] [] 1050))))
       = [(''0.0.0.0'', 80)]"
proof -
  let ?w = "Socks5_init (client [5, 1, 0, 5, 1, 0, 1, 255, 255, 255, 255, 1, 187] [] 1050)"
  let ?v = "Socks5_init (client [5, 1, 0, 5, 1, 0, 1, 0, 0, 0, 0, 0, 80] [] 1050)"
  have iw: "inp (csock ?w) = 5 # 1 # [0] @ 5 # 1 # 0 # 1 # 255 # 255 # 255 # 255 # 1 # 187 # []"
    by (simp add: Socks5_init_def client_def)
  have iv: "inp (csock ?v) = 5 # 1 # [0] @ 5 # 1 # 0 # 1 # 0 # 0 # 0 # 0 # 0 # 80 # []"
    by (simp add: Socks5_init_def client_def)
  have lm: "length [0 :: byte] = unat (1 :: byte)" by simp
  have vc: "(5 :: byte) = 5 \<or> (1 :: byte) = 1" by simp
  have nw: "no_raise 1 (csock ?w)" by (simp add: Socks5_init_def client_def no_raise_def)
  have nv: "no_raise 1 (csock ?v)" by (simp add: Socks5_init_def client_def no_raise_def)
  have s255: "str 255 = ''255''" by (simp add: str.simps digit_def)
  have s0: "str 0 = ''0''" by (simp add: str.simps digit_def)
  have sl: "stream_log ?w = []" "stream_log ?v = []" by (simp_all add: Socks5_init_def)
  from ipv4_destination_and_port
    [where circ = "failing_circuit OSError" and rounds = "[]" and closing = "(None, None)",
      OF iw lm vc nw]
  have tw: "fst (handshake ?w) = Next (''255.255.255.255'', 443)
     \<and> is_dotted_decimal ''255.255.255.255'' [255, 255, 255, 255]
     \<and> stream_log (snd (Socks5_run (failing_circuit OSError) [] (None, None) ?w))
         = [(''255.255.255.255'', 443)]"
    unfolding sl by (simp add: s255)
  from ipv4_destination_and_port
    [where circ = "failing_circuit OSError" and rounds = "[]" and closing = "(None, None)",
      OF iv lm vc nv]
  have tv: "fst (handshake ?v) = Next (''0.0.0.0'', 80)
     \<and> is_dotted_decimal ''0.0.0.0'' [0, 0, 0, 0]
     \<and> stream_log (snd (Socks5_run (failing_circuit OSError) [] (None, None) ?v))
         = [(''0.0.0.0'', 80)]"
    unfolding sl by (simp add: s0)
  from iw lm vc nw tw iv nv tv show ?thesis by blast
qed

text \<open>
  Claim C4, as amended. When the first read does not give the single byte 05 (another
  byte, or the end of the stream), \<open>Socks5.run\<close> calls \<open>error(b"\xff")\<close>, which puts
  05 in front of the code: the reply is the two bytes 05 FF. When that send does not
  raise, nothing else is sent, the client socket is closed once, the field is cleared
  and no stream is requested.
\<close>

theorem wrong_version_reply:
  assumes "take 1 (inp (csock w)) \<noteq> [5]" and "has_client_sock w"
    and "no_raise 1 (csock w)"
  shows "fst (Socks5_run circ rounds closing w) = Next ()
       \<and> sent (csock (snd (Socks5_run circ rounds closing w))) = sent (csock w) @ [[5, 255]]
       \<and> close_log (snd (Socks5_run circ rounds closing w)) = close_log w @ [Client]
       \<and> \<not> has_client_sock (snd (Socks5_run circ rounds closing w))
       \<and> stream_log (snd (Socks5_run circ rounds closing w)) = stream_log w"
proof -
  define w0 where "w0 = w\<lparr>csock := (csock w)\<lparr>inp := drop 1 (inp (csock w))\<rparr>\<rparr>"
  have e: "error [255] w0 =
     (Next (), w0\<lparr>csock := (csock w0)\<lparr>send_script := tl (send_script (csock w0)),
                                  sent := sent (csock w0) @ [[5, 255]]\<rparr>,
                close_log := close_log w0 @ [Client], has_client_sock := False\<rparr>)"
    by (rule error_sends_and_closes [of w0 0]) (use assms(2,3) in \<open>simp_all add: w0_def\<close>)
  have "run_greeting w = (Return, snd (error [255] w0))"
    using assms(1) by (simp add: run_greeting_def recv_def return_error_def w0_def)
  then have "Socks5_run circ rounds closing w = (Next (), snd (error [255] w0))"
    by (intro Socks5_run_Return run_try_greeting_Return)
  then show ?thesis by (simp add: e) (simp add: w0_def)
qed

theorem wrong_version_reply_witness:
  "take 1 (inp (csock (Socks5_init (client [4, 1, 0] [] 1050)))) \<noteq> [5]
   \<and> has_client_sock (Socks5_init (client [4, 1, 0] [] 1050))
   \<and> no_raise 1 (csock (Socks5_init (client [4, 1, 0] [] 1050)))
   \<and> fst (Socks5_run (failing_circuit OSError) [] (None, None) (Socks5_init (client [4, 1, 0] [] 1050)))
       = Next ()
   \<and> sent (csock (snd (Socks5_run (failing_circuit OSError) [] (None, None)
                         (Socks5_init (client [4, 1, 0] [] 1050))))) = [[5, 255]]
   \<and> close_log (snd (Socks5_run (failing_circuit OSError) [] (None, None)
                         (Socks5_init (client [4, 1, 0] [] 1050)))) = [Client]"
  using wrong_version_reply
    [of "Socks5_init (client [4, 1, 0] [] 1050)" "failing_circuit OSError" "[]"
        "(None, None)"]
  by (simp add: Socks5_init_def client_def no_raise_def)

text \<open>
  Claim C4 as stated fails: for a client whose first byte is 04 the reply is 05 FF, not
  the bare byte FF.
\<close>

theorem wrong_version_reply_is_two_bytes:
  "sent (csock (snd (Socks5_run (failing_circuit OSError) [] (None, None)
                       (Socks5_init (client [4, 1, 0] [] 1050))))) = [[5, 255]]
   \<and> sent (csock (snd (Socks5_run (failing_circuit OSError) [] (None, None)
                       (Socks5_init (client [4, 1, 0] [] 1050))))) \<noteq> [[255]]"
  by code_simp

text \<open>
  Claim C10. \<open>Socks5.error\<close> always returns normally. When the \<open>send\<close> of the reply
  raises, the \<open>close()\<close> and the clearing of \<open>self.client_sock\<close> that follow it in the
  \<open>try\<close> block are skipped: nothing is sent, no close is recorded and the field still
  refers to the socket. On the wrong-version path of \<open>Socks5.run\<close> this is the final
  state of the connection.
\<close>

theorem error_not_atomic:
  "fst (error err w) = Next ()
   \<and> (has_client_sock w \<and> send_script (csock w) = Some e # script \<longrightarrow>
        close_log (snd (error err w)) = close_log w
        \<and> has_client_sock (snd (error err w))
        \<and> sent (csock (snd (error err w))) = sent (csock w))
   \<and> (has_client_sock w \<and> send_script (csock w) = Some e # script
        \<and> take 1 (inp (csock w)) \<noteq> [5] \<longrightarrow>
        fst (Socks5_run circ rounds closing w) = Next ()
        \<and> close_log (snd (Socks5_run circ rounds closing w)) = close_log w
        \<and> has_client_sock (snd (Socks5_run circ rounds closing w)))"
proof (intro conjI impI)
  show "fst (error err w) = Next ()"
    by (simp add: error_def split: prod.splits option.splits)
next
  assume a: "has_client_sock w \<and> send_script (csock w) = Some e # script"
  then show "close_log (snd (error err w)) = close_log w"
    and "has_client_sock (snd (error err w))"
    and "sent (csock (snd (error err w))) = sent (csock w)"
    by (simp_all add: error_def error_try_def send_def)
next
  assume a: "has_client_sock w \<and> send_script (csock w) = Some e # script
      \<and> take 1 (inp (csock w)) \<noteq> [5]"
  let ?w0 = "w\<lparr>csock := (csock w)\<lparr>inp := drop 1 (inp (csock w))\<rparr>\<rparr>"
  have "run_greeting w = (Return, snd (error [255] ?w0))"
    using a by (simp add: run_greeting_def recv_def return_error_def)
  then have r: "Socks5_run circ rounds closing w = (Next (), snd (error [255] ?w0))"
    by (intro Socks5_run_Return run_try_greeting_Return)
  from a show "fst (Socks5_run circ rounds closing w) = Next ()"
    and "close_log (snd (Socks5_run circ rounds closing w)) = close_log w"
    and "has_client_sock (snd (Socks5_run circ rounds closing w))"
    by (simp_all add: r error_def error_try_def send_def)
qed

theorem error_not_atomic_witness:
  "has_client_sock (Socks5_init (client [4, 1, 0] [Some BrokenPipeError] 1050))
   \<and> send_script (csock (Socks5_init (client [4, 1, 0] [Some BrokenPipeError] 1050)))
       = Some BrokenPipeError # []
   \<and> take 1 (inp (csock (Socks5_init (client [4, 1, 0] [Some BrokenPipeError] 1050)))) \<noteq> [5]
   \<and> fst (error [255] (Socks5_init (client [4, 1, 0] [Some BrokenPipeError] 1050))) = Next ()
   \<and> close_log (snd (error [255] (Socks5_init (client [4, 1, 0] [Some BrokenPipeError] 1050))))
       = []
   \<and> has_client_sock (snd (error [255]
        (Socks5_init (client [4, 1, 0] [Some BrokenPipeError] 1050))))
   \<and> close_log (snd (Socks5_run (failing_circuit OSError) [] (None, None)
        (Socks5_init (client [4, 1, 0] [Some BrokenPipeError] 1050)))) = []
   \<and> has_client_sock (snd (Socks5_run (failing_circuit OSError) [] (None, None)
        (Socks5_init (client [4, 1, 0] [Some BrokenPipeError] 1050))))"
  using error_not_atomic
    [of "[255]" "Socks5_init (client [4, 1, 0] [Some BrokenPipeError] 1050)"
        BrokenPipeError "[]" "failing_circuit OSError" "[]" "(None, None)"]
  by (simp add: Socks5_init_def client_def)




text \<open>
  Claim C2, as amended. When the handshake has produced a destination and
  \<open>create_stream\<close> raises an \<open>Exception\<close> other than \<open>BrokenPipeError\<close>, the handler of
  line 156 closes the client socket once and clears the field without sending a
  failure reply: the greeting reply 05 00 is the only thing sent. The relay is not
  started.
\<close>

theorem stream_failure_closes_without_reply:
  assumes "fst (handshake w) = Next (dest, port)" and "circ (dest, port) = Inl e"
    and "is_Exception e" and "e \<noteq> BrokenPipeError"
  shows "fst (Socks5_run circ rounds closing w) = Next ()
       \<and> sent (csock (snd (Socks5_run circ rounds closing w))) = sent (csock w) @ [[5, 0]]
       \<and> close_log (snd (Socks5_run circ rounds closing w)) = close_log w @ [Client]
       \<and> \<not> has_client_sock (snd (Socks5_run circ rounds closing w))
       \<and> relays (snd (Socks5_run circ rounds closing w)) = relays w"
proof -
  let ?w4 = "snd (handshake w)"
  have "run_try circ rounds closing w =
      (Raise e, ?w4\<lparr>stream_log := stream_log ?w4 @ [(dest, port)]\<rparr>)"
    using assms(4)
    by (simp add: run_try_after_handshake [OF assms(1)] run_connect_def
          with_create_socket_raises [where circ = circ, OF assms(2)])
  then have "Socks5_run circ rounds closing w =
      (Next (), ?w4\<lparr>stream_log := stream_log ?w4 @ [(dest, port)],
                    close_log := close_log ?w4 @ [Client], has_client_sock := False\<rparr>)"
    using assms(3) by (simp add: Socks5_run_def)
  then show ?thesis
    by (simp add: handshake_Next_facts [OF assms(1)])
qed

theorem stream_failure_closes_without_reply_witness:
  "fst (handshake (Socks5_init (client [5, 1, 0, 5, 1, 0, 1, 127, 0, 0, 1, 0, 80] [] 1050)))
     = Next (''127.0.0.1'', 80)
   \<and> failing_circuit OSError (''127.0.0.1'', 80) = Inl OSError
   \<and> is_Exception OSError \<and> OSError \<noteq> BrokenPipeError
   \<and> fst (Socks5_run (failing_circuit OSError) [] (None, None)
        (Socks5_init (client [5, 1, 0, 5, 1, 0, 1, 127, 0, 0, 1, 0, 80] [] 1050))) = Next ()
   \<and> sent (csock (snd (Socks5_run (failing_circuit OSError) [] (None, None)
        (Socks5_init (client [5, 1, 0, 5, 1, 0, 1, 127, 0, 0, 1, 0, 80] [] 1050))))) = [[5, 0]]
   \<and> close_log (snd (Socks5_run (failing_circuit OSError) [] (None, None)
        (Socks5_init (client [5, 1, 0, 5, 1, 0, 1, 127, 0, 0, 1, 0, 80] [] 1050)))) = [Client]"
proof -
  have h: "fst (handshake (Socks5_init
              (client [5, 1, 0, 5, 1, 0, 1, 127, 0, 0, 1, 0, 80] [] 1050)))
           = Next (''127.0.0.1'', 80)"
    by code_simp
  have c: "failing_circuit OSError (''127.0.0.1'', 80) = Inl OSError"
    by (simp add: failing_circuit_def)
  from stream_failure_closes_without_reply
      [where circ = "failing_circuit OSError" and rounds = "[]" and closing = "(None, None)", OF h c] h c
  show ?thesis
    by (simp add: Socks5_init_def client_def)
qed

text \<open>
  Claim C2 as stated fails: with a circuit whose \<open>create_stream\<close> raises \<open>OSError\<close>, a
  well-formed request for 127.0.0.1:80 ends with the client socket closed and 05 01 00
  never sent.
\<close>

theorem stream_failure_sends_no_failure_reply:
  "close_log (snd (Socks5_run (failing_circuit OSError) [] (None, None)
      (Socks5_init (client [5, 1, 0, 5, 1, 0, 1, 127, 0, 0, 1, 0, 80] [] 1050)))) = [Client]
   \<and> sent (csock (snd (Socks5_run (failing_circuit OSError) [] (None, None)
      (Socks5_init (client [5, 1, 0, 5, 1, 0, 1, 127, 0, 0, 1, 0, 80] [] 1050))))) = [[5, 0]]
   \<and> [5, 1, 0] \<notin> set (sent (csock (snd (Socks5_run (failing_circuit OSError) [] (None, None)
      (Socks5_init (client [5, 1, 0, 5, 1, 0, 1, 127, 0, 0, 1, 0, 80] [] 1050))))))"
  by code_simp

text \<open>
  Claim C1 does not hold of the code. A request header 05 02 00 01 (version 5, command
  BIND) passes the guard of line 135, whose condition \<open>ver != 5 and cmd != 1\<close> is false as
  soon as the version is 5: the address and the port are read and \<open>create_stream\<close> is
  called for 127.0.0.1:80.
\<close>

theorem bind_request_is_accepted:
  "stream_log (snd (Socks5_run (failing_circuit OSError) [] (None, None)
      (Socks5_init (client [5, 1, 0, 5, 2, 0, 1, 127, 0, 0, 1, 0, 80] [] 1050))))
     = [(''127.0.0.1'', 80)]
   \<and> inp (csock (snd (Socks5_run (failing_circuit OSError) [] (None, None)
      (Socks5_init (client [5, 1, 0, 5, 2, 0, 1, 127, 0, 0, 1, 0, 80] [] 1050))))) = []
   \<and> fst (run_request (Socks5_init (client [5, 2, 0, 1, 127, 0, 0, 1, 0, 80] [] 1050)))
     = Next 1"
  by code_simp

text \<open>
  Claim C3, as amended. After a successful handshake and stream acquisition, the next
  thing sent to the client after the greeting reply is the ten bytes 05 00 00 01, then
  7F 00 00 01, then the port that \<open>getsockname()\<close> reports for the client socket, most
  significant byte first. Whatever the relay forwards comes after it.
\<close>

theorem success_reply_bytes:
  assumes "fst (handshake w) = Next (dest, port)"
    and "circ (dest, port) = Inr st" and "create_socket_result st = Inr ss"
    and "no_raise 2 (csock w)"
  shows "(\<exists>more. sent (csock (snd (Socks5_run circ rounds closing w))) =
            sent (csock w)
            @ [[5, 0], [5, 0, 0, 1, 127, 0, 0, 1] @ pack_H (sockname_port (csock w))] @ more)
       \<and> length ([5, 0, 0, 1, 127, 0, 0, 1] @ pack_H (sockname_port (csock w))) = 10
       \<and> map unat (pack_H (sockname_port (csock w))) =
           [unat (sockname_port (csock w)) div 256, unat (sockname_port (csock w)) mod 256]"
proof -
  have nr0: "no_raise (Suc 0) (csock (snd (handshake w)))"
    using assms(1,4) by (rule handshake_no_raise)
  let ?p = "\<lparr>server_sock = ss, client_sock = csock (snd (handshake w)), close_calls = []\<rparr>"
  have nr: "no_raise (Suc 0) (client_sock ?p)" using nr0 by simp
  from SocksProxy_run_shape(1) [OF nr, of rounds closing] obtain more where
    m: "sent (client_sock (snd (SocksProxy_run rounds closing ?p))) =
          sent (client_sock ?p)
          @ [[5, 0, 0, 1, 127, 0, 0, 1] @ pack_H (sockname_port (client_sock ?p))] @ more"
    by blast
  have "csock (snd (Socks5_run circ rounds closing w)) =
      csock (snd (with_create_socket circ rounds closing dest port (snd (handshake w))))"
    by (simp add: Socks5_run_csock run_try_after_handshake [OF assms(1)] run_connect_csock)
  also have "\<dots> = client_sock (snd (SocksProxy_run rounds closing ?p))"
    by (simp add: with_create_socket_relay [where circ = circ, OF assms(2,3)] absorb_def)
  finally have "sent (csock (snd (Socks5_run circ rounds closing w))) =
      sent (csock w)
      @ [[5, 0], [5, 0, 0, 1, 127, 0, 0, 1] @ pack_H (sockname_port (csock w))] @ more"
    using m by (simp add: handshake_Next_facts(1,3) [OF assms(1)])
  then have "\<exists>more. sent (csock (snd (Socks5_run circ rounds closing w))) =
            sent (csock w)
            @ [[5, 0], [5, 0, 0, 1, 127, 0, 0, 1] @ pack_H (sockname_port (csock w))] @ more"
    by blast
  moreover have "length ([5, 0, 0, 1, 127, 0, 0, 1] @ pack_H (sockname_port (csock w))) = 10"
    by (simp add: pack_H_def)
  ultimately show ?thesis
    using unat_pack_H [of "sockname_port (csock w)"] by blast
qed

theorem success_reply_bytes_witness:
  "fst (handshake (Socks5_init (client [5, 1, 0, 5, 1, 0, 1, 127, 0, 0, 1, 0, 80] [] 1050)))
     = Next (''127.0.0.1'', 80)
   \<and> working_circuit (client [] [] 0) (''127.0.0.1'', 80) = Inr (Stream (Inr (client [] [] 0)))
   \<and> create_socket_result (Stream (Inr (client [] [] 0))) = Inr (client [] [] 0)
   \<and> no_raise 2 (csock (Socks5_init
        (client [5, 1, 0, 5, 1, 0, 1, 127, 0, 0, 1, 0, 80] [] 1050)))
   \<and> (\<exists>more. sent (csock (snd (Socks5_run (working_circuit (client [] [] 0)) [] (None, None)
          (Socks5_init (client [5, 1, 0, 5, 1, 0, 1, 127, 0, 0, 1, 0, 80] [] 1050))))) =
        [[5, 0], [5, 0, 0, 1, 127, 0, 0, 1, 4, 26]] @ more)"
proof -
  have h: "fst (handshake (Socks5_init
              (client [5, 1, 0, 5, 1, 0, 1, 127, 0, 0, 1, 0, 80] [] 1050)))
           = Next (''127.0.0.1'', 80)"
    by code_simp
  have c: "working_circuit (client [] [] 0) (''127.0.0.1'', 80)
             = Inr (Stream (Inr (client [] [] 0)))"
    by (simp add: working_circuit_def)
  have k: "create_socket_result (Stream (Inr (client [] [] 0))) = Inr (client [] [] 0)"
    by simp
  have n: "no_raise 2 (csock (Socks5_init
        (client [5, 1, 0, 5, 1, 0, 1, 127, 0, 0, 1, 0, 80] [] 1050)))"
    by (simp add: no_raise_def Socks5_init_def client_def)
  have p: "pack_H 1050 = [4, 26]"
    by (simp add: pack_H_def)
  from success_reply_bytes
    [where circ = "working_circuit (client [] [] 0)" and rounds = "[]" and closing = "(None, None)", OF h c k n]
  have "\<exists>more. sent (csock (snd (Socks5_run (working_circuit (client [] [] 0)) [] (None, None)
          (Socks5_init (client [5, 1, 0, 5, 1, 0, 1, 127, 0, 0, 1, 0, 80] [] 1050))))) =
        [[5, 0], [5, 0, 0, 1, 127, 0, 0, 1, 4, 26]] @ more"
    by (simp add: Socks5_init_def client_def p)
  with h c k n show ?thesis by blast
qed

text \<open>
  Claim C3 as stated fails: the address field of the reply is 7F 00 00 01, not four zero
  bytes.
\<close>

theorem success_reply_has_loopback_address:
  "sent (csock (snd (Socks5_run (working_circuit (client [] [] 0))
       [Round (Inr (True, False)) (Inr 0) (Inr 0)] (None, None)
       (Socks5_init (client [5, 1, 0, 5, 1, 0, 1, 127, 0, 0, 1, 0, 80] [] 1050)))))
     = [[5, 0], [5, 0, 0, 1, 127, 0, 0, 1, 4, 26]]
   \<and> [5, 0, 0, 1, 0, 0, 0, 0, 4, 26]
       \<notin> set (sent (csock (snd (Socks5_run (working_circuit (client [] [] 0))
             [Round (Inr (True, False)) (Inr 0) (Inr 0)] (None, None)
             (Socks5_init (client [5, 1, 0, 5, 1, 0, 1, 127, 0, 0, 1, 0, 80] [] 1050))))))"
  by code_simp

text \<open>
  Claim C6. For a request with address type 4 whose header passes the guard of line 135
  (as every request with version 5 and command 1 does), \<open>Socks5.run\<close> reads exactly the
  sixteen bytes that follow, whatever they contain, and then rejects the request: it
  sends the failure reply 05 01 00, closes the client socket once and returns.
  \<open>create_stream\<close> is not called and no relay is started. The two replies are sends
  on the client socket, so the statement is for a socket whose first two sends do not
  raise.
\<close>

theorem ipv6_request_rejected:
  assumes "inp (csock w) = 5 # n # ms @ ver # cmd # rsv # 4 # addr @ rest"
    and "length ms = unat n" and "length addr = 16" and "ver = 5 \<or> cmd = 1"
    and "no_raise 2 (csock w)" and "has_client_sock w"
  shows "fst (Socks5_run circ rounds closing w) = Next ()
       \<and> inp (csock (snd (Socks5_run circ rounds closing w))) = rest
       \<and> sent (csock (snd (Socks5_run circ rounds closing w))) = sent (csock w) @ [[5, 0], [5, 1, 0]]
       \<and> close_log (snd (Socks5_run circ rounds closing w)) = close_log w @ [Client]
       \<and> \<not> has_client_sock (snd (Socks5_run circ rounds closing w))
       \<and> stream_log (snd (Socks5_run circ rounds closing w)) = stream_log w
       \<and> relays (snd (Socks5_run circ rounds closing w)) = relays w"
proof -
  have nr2: "no_raise (Suc (Suc 0)) (csock w)"
    using assms(5) by (simp add: numeral_2_eq_2)
  then have nr1: "no_raise (Suc 0) ((csock w)\<lparr>send_script := tl (send_script (csock w))\<rparr>)"
    by (rule no_raise_tl)
  define w1 where "w1 = w\<lparr>csock := (csock w)\<lparr>inp := ver # cmd # rsv # 4 # addr @ rest,
      send_script := tl (send_script (csock w)), sent := sent (csock w) @ [[5, 0]]\<rparr>\<rparr>"
  define w2 where "w2 = w1\<lparr>csock := (csock w1)\<lparr>inp := addr @ rest\<rparr>\<rparr>"
  define w3 where "w3 = w2\<lparr>csock := (csock w2)\<lparr>inp := rest\<rparr>\<rparr>"
  have g: "run_greeting w = (Next (), w1)"
    unfolding w1_def using assms(1,2) nr2 by (rule greeting_eq)
  have q: "run_request w1 = (Next 4, w2)"
    unfolding w2_def by (rule request_eq) (simp add: w1_def, rule assms(4))
  have ad: "run_address 4 w2 = (Return, snd (error [1, 0] w3))"
    unfolding w3_def by (rule address_ipv6_eq [OF _ assms(3)]) (simp add: w2_def)
  have "no_raise (Suc 0) (csock w3)"
    using nr1 by (simp add: w3_def w2_def w1_def no_raise_def)
  moreover have "has_client_sock w3"
    using assms(6) by (simp add: w3_def w2_def w1_def)
  ultimately have e: "error [1, 0] w3 =
     (Next (), w3\<lparr>csock := (csock w3)\<lparr>send_script := tl (send_script (csock w3)),
                                    sent := sent (csock w3) @ [[5, 1, 0]]\<rparr>,
                  close_log := close_log w3 @ [Client], has_client_sock := False\<rparr>)"
    by (intro error_sends_and_closes)
  have "Socks5_run circ rounds closing w = (Next (), snd (error [1, 0] w3))"
    by (intro Socks5_run_Return run_try_handshake_Return handshake_address_Return [OF g q ad])
  then show ?thesis
    by (simp add: e) (simp add: w3_def w2_def w1_def)
qed

theorem ipv6_request_rejected_witness:
  "inp (csock (Socks5_init (client
       [5, 1, 0, 5, 1, 0, 4, 32, 1, 13, 184, 0, 0, 0, 0, 0, 0, 0, 0, 0, 0, 0, 1, 0, 80, 7]
       [] 1050)))
     = 5 # 1 # [0] @ 5 # 1 # 0 # 4 # [32, 1, 13, 184, 0, 0, 0, 0, 0, 0, 0, 0, 0, 0, 0, 1]
         @ [0, 80, 7]
   \<and> length [0 :: byte] = unat (1 :: byte)
   \<and> length [32, 1, 13, 184, 0, 0, 0, 0, 0, 0, 0, 0, 0, 0, 0, 1 :: byte] = 16
   \<and> ((5 :: byte) = 5 \<or> (1 :: byte) = 1)
   \<and> no_raise 2 (csock (Socks5_init (client
       [5, 1, 0, 5, 1, 0, 4, 32, 1, 13, 184, 0, 0, 0, 0, 0, 0, 0, 0, 0, 0, 0, 1, 0, 80, 7]
       [] 1050)))
   \<and> has_client_sock (Socks5_init (client
       [5, 1, 0, 5, 1, 0, 4, 32, 1, 13, 184, 0, 0, 0, 0, 0, 0, 0, 0, 0, 0, 0, 1, 0, 80, 7]
       [] 1050))
   \<and> inp (csock (snd (Socks5_run (working_circuit (client [] [] 0)) [] (None, None) (Socks5_init (client
       [5, 1, 0, 5, 1, 0, 4, 32, 1, 13, 184, 0, 0, 0, 0, 0, 0, 0, 0, 0, 0, 0, 1, 0, 80, 7]
       [] 1050))))) = [0, 80, 7]
   \<and> sent (csock (snd (Socks5_run (working_circuit (client [] [] 0)) [] (None, None) (Socks5_init (client
       [5, 1, 0, 5, 1, 0, 4, 32, 1, 13, 184, 0, 0, 0, 0, 0, 0, 0, 0, 0, 0, 0, 1, 0, 80, 7]
       [] 1050))))) = [[5, 0], [5, 1, 0]]
   \<and> close_log (snd (Socks5_run (working_circuit (client [] [] 0)) [] (None, None) (Socks5_init (client
       [5, 1, 0, 5, 1, 0, 4, 32, 1, 13, 184, 0, 0, 0, 0, 0, 0, 0, 0, 0, 0, 0, 1, 0, 80, 7]
       [] 1050)))) = [Client]
   \<and> stream_log (snd (Socks5_run (working_circuit (client [] [] 0)) [] (None, None) (Socks5_init (client
       [5, 1, 0, 5, 1, 0, 4, 32, 1, 13, 184, 0, 0, 0, 0, 0, 0, 0, 0, 0, 0, 0, 1, 0, 80, 7]
       [] 1050)))) = []"
proof -
  let ?w = "Socks5_init (client
       [5, 1, 0, 5, 1, 0, 4, 32, 1, 13, 184, 0, 0, 0, 0, 0, 0, 0, 0, 0, 0, 0, 1, 0, 80, 7]
       [] 1050)"
  have i: "inp (csock ?w)
     = 5 # 1 # [0] @ 5 # 1 # 0 # 4 # [32, 1, 13, 184, 0, 0, 0, 0, 0, 0, 0, 0, 0, 0, 0, 1]
         @ [0, 80, 7]"
    by (simp add: Socks5_init_def client_def)
  have m: "length [0 :: byte] = unat (1 :: byte)" by simp
  have a: "length [32, 1, 13, 184, 0, 0, 0, 0, 0, 0, 0, 0, 0, 0, 0, 1 :: byte] = 16" by simp
  have v: "(5 :: byte) = 5 \<or> (1 :: byte) = 1" by simp
  have n: "no_raise 2 (csock ?w)" by (simp add: Socks5_init_def client_def no_raise_def)
  have h: "has_client_sock ?w" by (simp add: Socks5_init_def)
  have s: "sent (csock ?w) = []" "close_log ?w = []" "stream_log ?w = []"
    by (simp_all add: Socks5_init_def client_def)
  from ipv6_request_rejected
    [where circ = "working_circuit (client [] [] 0)" and rounds = "[]" and closing = "(None, None)", OF i m a v n h]
    i m a v n h
  show ?thesis unfolding s by simp
qed

text \<open>
  Claim C7. For address type 3 with length byte \<open>l\<close>, the address step takes exactly the
  \<open>l\<close> bytes that follow as the host name, whatever their values: they are consumed
  whether \<open>decode()\<close> accepts them or raises. And for every string of printable ASCII
  characters of at most 255 bytes, a request that carries it with its length in front
  is parsed back to the same string, which is the host \<open>create_stream\<close> is called
  with.
\<close>

theorem domain_name_length_and_round_trip:
  "(inp (csock w) = l # host @ rest \<and> length host = unat l \<longrightarrow>
      inp (csock (snd (run_address 3 w))) = rest
      \<and> fst (run_address 3 w) = (case decode host of Inl e \<Rightarrow> Raise e | Inr dest \<Rightarrow> Next dest))
   \<and> (list_all printable s \<and> length s \<le> 255
      \<and> inp (csock v) =
          5 # n # ms @ ver # cmd # rsv # 3 # of_nat (length s) # encode s @ p1 # p2 # rest2
      \<and> length ms = unat n \<and> (ver = 5 \<or> cmd = 1) \<and> no_raise 1 (csock v) \<longrightarrow>
      fst (handshake v) = Next (s, unat p1 * 256 + unat p2)
      \<and> stream_log (snd (Socks5_run circ rounds closing v)) =
          stream_log v @ [(s, unat p1 * 256 + unat p2)])"
proof (intro conjI impI)
  assume a: "inp (csock w) = l # host @ rest \<and> length host = unat l"
  then have "run_address 3 w =
     ((case decode host of Inl e \<Rightarrow> Raise e | Inr dest \<Rightarrow> Next dest),
      w\<lparr>csock := (csock w)\<lparr>inp := rest\<rparr>\<rparr>)"
    by (intro address_domain_eq) simp_all
  then show "inp (csock (snd (run_address 3 w))) = rest"
    and "fst (run_address 3 w) = (case decode host of Inl e \<Rightarrow> Raise e | Inr dest \<Rightarrow> Next dest)"
    by simp_all
next
  assume a: "list_all printable s \<and> length s \<le> 255
      \<and> inp (csock v) =
          5 # n # ms @ ver # cmd # rsv # 3 # of_nat (length s) # encode s @ p1 # p2 # rest2
      \<and> length ms = unat n \<and> (ver = 5 \<or> cmd = 1) \<and> no_raise 1 (csock v)"
  then have nr: "no_raise (Suc 0) (csock v)" by simp
  from a have i: "inp (csock v) =
      5 # n # ms @ ver # cmd # rsv # 3 # of_nat (length s) # encode s @ p1 # p2 # rest2"
    and lm: "length ms = unat n" and vc: "ver = 5 \<or> cmd = 1"
    and pr: "list_all printable s" and ls: "length s \<le> 255"
    by simp_all
  define v1 where "v1 = v\<lparr>csock := (csock v)\<lparr>
      inp := ver # cmd # rsv # 3 # of_nat (length s) # encode s @ p1 # p2 # rest2,
      send_script := tl (send_script (csock v)), sent := sent (csock v) @ [[5, 0]]\<rparr>\<rparr>"
  define v2 where "v2 = v1\<lparr>csock := (csock v1)\<lparr>
      inp := of_nat (length s) # encode s @ p1 # p2 # rest2\<rparr>\<rparr>"
  define v3 where "v3 = v2\<lparr>csock := (csock v2)\<lparr>inp := p1 # p2 # rest2\<rparr>\<rparr>"
  define v4 where "v4 = v3\<lparr>csock := (csock v3)\<lparr>inp := rest2\<rparr>\<rparr>"
  have g: "run_greeting v = (Next (), v1)"
    unfolding v1_def using i lm nr by (rule greeting_eq)
  have q: "run_request v1 = (Next 3, v2)"
    unfolding v2_def by (rule request_eq) (simp add: v1_def, rule vc)
  have "run_address 3 v2 =
     ((case decode (encode s) of Inl e \<Rightarrow> Raise e | Inr dest \<Rightarrow> Next dest), v3)"
    unfolding v3_def
    by (rule address_domain_eq [where l = "of_nat (length s)"])
       (simp_all add: v2_def unat_length_byte [OF ls])
  then have ad: "run_address 3 v2 = (Next s, v3)"
    by (simp add: decode_encode [OF pr])
  have p: "run_port v3 = (Next (unat p1 * 256 + unat p2), v4)"
    unfolding v4_def by (rule port_eq) (simp add: v3_def)
  have h: "fst (handshake v) = Next (s, unat p1 * 256 + unat p2)"
    by (simp add: handshake_compose [OF g q ad p])
  then show "fst (handshake v) = Next (s, unat p1 * 256 + unat p2)" .
  from Socks5_run_requests_stream [OF h]
  show "stream_log (snd (Socks5_run circ rounds closing v)) =
          stream_log v @ [(s, unat p1 * 256 + unat p2)]" .
qed

theorem domain_name_length_and_round_trip_witness:
  "inp (csock (Socks5_init (client [3, 7, 255, 10, 1, 187] [] 1050))) = 3 # [7, 255, 10] @ [1, 187]
   \<and> length [7, 255, 10 :: byte] = unat (3 :: byte)
   \<and> inp (csock (snd (run_address 3 (Socks5_init (client [3, 7, 255, 10, 1, 187] [] 1050)))))
       = [1, 187]
   \<and> list_all printable ''a.io'' \<and> length ''a.io'' \<le> 255
   \<and> inp (csock (Socks5_init
         (client ([5, 1, 0, 5, 1, 0, 3, 4] @ encode ''a.io'' @ [1, 187]) [] 1050)))
       = 5 # 1 # [0] @ 5 # 1 # 0 # 3 # of_nat (length ''a.io'') # encode ''a.io'' @ 1 # 187 # []
   \<and> fst (handshake (Socks5_init
         (client ([5, 1, 0, 5, 1, 0, 3, 4] @ encode ''a.io'' @ [1, 187]) [] 1050)))
       = Next (''a.io'', 443)
   \<and> stream_log (snd (Socks5_run (failing_circuit OSError) [] (None, None) (Socks5_init
         (client ([5, 1, 0, 5, 1, 0, 3, 4] @ encode ''a.io'' @ [1, 187]) [] 1050))))
       = [(''a.io'', 443)]"
proof -
  let ?w = "Socks5_init (client [3, 7, 255, 10, 1, 187] [] 1050)"
  let ?v = "Socks5_init (client ([5, 1, 0, 5, 1, 0, 3, 4] @ encode ''a.io'' @ [1, 187]) [] 1050)"
  have i1: "inp (csock ?w) = 3 # [7, 255, 10] @ [1, 187]"
    by (simp add: Socks5_init_def client_def)
  have l1: "length [7, 255, 10 :: byte] = unat (3 :: byte)" by simp
  have pr: "list_all printable ''a.io''" by (simp add: printable_def)
  have ls: "length ''a.io'' \<le> 255" by simp
  have i2: "inp (csock ?v) =
      5 # 1 # [0] @ 5 # 1 # 0 # 3 # of_nat (length ''a.io'') # encode ''a.io'' @ 1 # 187 # []"
    by (simp add: Socks5_init_def client_def)
  have lm: "length [0 :: byte] = unat (1 :: byte)" by simp
  have nr: "no_raise 1 (csock ?v)" by (simp add: Socks5_init_def client_def no_raise_def)
  have sl: "stream_log ?v = []" by (simp add: Socks5_init_def)
  note t = domain_name_length_and_round_trip
    [where w = ?w and l = 3 and host = "[7, 255, 10]" and rest = "[1, 187]"
       and s = "''a.io''" and v = ?v and n = 1 and ms = "[0]" and ver = 5 and cmd = 1
       and rsv = 0 and ?p1.0 = 1 and ?p2.0 = 187 and ?rest2.0 = "[]"
       and circ = "failing_circuit OSError" and rounds = "[]" and closing = "(None, None)"]
  from t i1 l1 have c1: "inp (csock (snd (run_address 3 ?w))) = [1, 187]" by blast
  from t pr ls i2 lm nr
  have c2: "fst (handshake ?v) = Next (''a.io'', unat (1 :: byte) * 256 + unat (187 :: byte))
     \<and> stream_log (snd (Socks5_run (failing_circuit OSError) [] (None, None) ?v)) =
         stream_log ?v @ [(''a.io'', unat (1 :: byte) * 256 + unat (187 :: byte))]"
    by blast
  from c2 have c3: "fst (handshake ?v) = Next (''a.io'', 443)"
    and c4: "stream_log (snd (Socks5_run (failing_circuit OSError) [] (None, None) ?v)) = [(''a.io'', 443)]"
    unfolding sl by simp_all
  from i1 l1 c1 pr ls i2 c3 c4 show ?thesis by blast
qed

end
